theory Spec2Isabelle
  imports Complex_Main "HOL-Library.Sublist"
begin

section \<open>The conversation runtime emitted by ChatbotGenerator\<close>

text \<open>
  The runtime consists of four modules that ChatbotGenerator writes out as text:
  \<^verbatim>\<open>intent-handler.js\<close>, \<^verbatim>\<open>conversation-flow-handler.js\<close>,
  \<^verbatim>\<open>product-recommendation-handler.js\<close> and \<^verbatim>\<open>user-state-manager.js\<close>.
  The definitions below embed the JavaScript of those modules as it reads in the
  emitted files. Mutation of the module-level \<^verbatim>\<open>userStates\<close> map is explicit state
  passing; every \<^verbatim>\<open>new Date()\<close> is a clock reading \<open>now\<close> handed in by the caller;
  a \<^verbatim>\<open>throw\<close> is the left injection of a sum.
\<close>

subsection \<open>Data model\<close>

text \<open>One element of \<^verbatim>\<open>conversationHistory\<close>: \<^verbatim>\<open>{ role, content, timestamp }\<close>.\<close>

record history_entry =
  role :: string
  content :: string
  timestamp :: nat

text \<open>
  The object stored per user. \<^verbatim>\<open>lastIntent\<close> and \<^verbatim>\<open>lastMessage\<close> start as
  \<^verbatim>\<open>null\<close> (\<open>None\<close>); \<^verbatim>\<open>updatedAt\<close> is absent until the first update.
\<close>

record user_state =
  conversationHistory :: "history_entry list"
  preferences :: "(string \<times> string) list"
  lastIntent :: "string option"
  lastMessage :: "string option"
  messageCount :: int
  stage :: string
  createdAt :: nat
  updatedAt :: "nat option"

text \<open>The module-level \<^verbatim>\<open>const userStates = new Map()\<close>, keyed by user id.\<close>

type_synonym store = "string \<rightharpoonup> user_state"

text \<open>What a \<^verbatim>\<open>throw\<close> carries; the runtime only ever logs it.\<close>

datatype error = TransportError | ServiceError | SyntaxError | TypeError | HandlerError string

subsection \<open>user-state-manager.js\<close>

text \<open>The object literal that \<^verbatim>\<open>getUserState\<close> stores for an unknown user.\<close>

definition default_state :: "nat \<Rightarrow> user_state" where
  "default_state now =
     \<lparr> conversationHistory = [],
       preferences = [],
       lastIntent = None,
       lastMessage = None,
       messageCount = 0,
       stage = ''greeting'',
       createdAt = now,
       updatedAt = None \<rparr>"

definition getUserState :: "store \<Rightarrow> string \<Rightarrow> nat \<Rightarrow> store \<times> user_state" where
  "getUserState userStates userId now =
     (case userStates userId of
        None \<Rightarrow> (userStates(userId \<mapsto> default_state now), default_state now)
      | Some s \<Rightarrow> (userStates, s))"

definition determineConversationStage :: "user_state \<Rightarrow> string" where
  "determineConversationStage state =
     (if messageCount state \<le> 1 then ''greeting''
      else if lastIntent state = Some ''checkout_help'' then ''checkout''
      else if lastIntent state = Some ''product_inquiry'' \<or> lastIntent state = Some ''price_inquiry''
        then ''product_discovery''
      else if lastIntent state = Some ''objection'' then ''objection_handling''
      else if messageCount state \<ge> 5 then ''engagement''
      else ''information'')"

text \<open>
  The \<^verbatim>\<open>updates\<close> argument of \<^verbatim>\<open>updateUserState\<close>. Its only caller,
  \<^verbatim>\<open>processMessage\<close>, passes an object with exactly the keys \<^verbatim>\<open>lastIntent\<close>,
  \<^verbatim>\<open>lastMessage\<close> and \<^verbatim>\<open>messageCount\<close>; \<open>None\<close> stands for a key that is left out,
  which the spread \<^verbatim>\<open>...updates\<close> then leaves as it was.
\<close>

record state_updates =
  upd_lastIntent :: "string option"
  upd_lastMessage :: "string option"
  upd_messageCount :: "int option"

text \<open>
  \<^verbatim>\<open>updates.lastMessage && !currentState.conversationHistory.some(msg =>
     msg.role === 'user' && msg.content === updates.lastMessage)\<close>.
  A string is truthy when it is not empty.
\<close>

definition is_new_message :: "state_updates \<Rightarrow> user_state \<Rightarrow> bool" where
  "is_new_message updates currentState =
     (case upd_lastMessage updates of
        None \<Rightarrow> False
      | Some m \<Rightarrow>
          m \<noteq> [] \<and>
          \<not> list_ex (\<lambda>msg. role msg = ''user'' \<and> content msg = m)
                (conversationHistory currentState))"

definition updateUserState :: "store \<Rightarrow> string \<Rightarrow> state_updates \<Rightarrow> nat \<Rightarrow> store \<times> user_state" where
  "updateUserState userStates userId updates now =
     (let (userStates1, currentState) = getUserState userStates userId now;
          newState = currentState
            \<lparr> lastIntent := (case upd_lastIntent updates of
                                None \<Rightarrow> lastIntent currentState | Some i \<Rightarrow> Some i),
              lastMessage := (case upd_lastMessage updates of
                                None \<Rightarrow> lastMessage currentState | Some m \<Rightarrow> Some m),
              messageCount := (case upd_messageCount updates of
                                None \<Rightarrow> messageCount currentState | Some n \<Rightarrow> n),
              updatedAt := Some now \<rparr>;
          newState1 =
            (if is_new_message updates currentState
             then newState
               \<lparr> conversationHistory :=
                   conversationHistory currentState @
                   [\<lparr> role = ''user'', content = the (upd_lastMessage updates), timestamp = now \<rparr>] \<rparr>
             else newState);
          newState2 = newState1 \<lparr> stage := determineConversationStage newState1 \<rparr>
      in (userStates1(userId \<mapsto> newState2), newState2))"

definition addBotResponse :: "store \<Rightarrow> string \<Rightarrow> string \<Rightarrow> nat \<Rightarrow> store \<times> user_state" where
  "addBotResponse userStates userId response now =
     (let (userStates1, currentState) = getUserState userStates userId now;
          newState = currentState
            \<lparr> conversationHistory :=
                conversationHistory currentState @
                [\<lparr> role = ''assistant'', content = response, timestamp = now \<rparr>],
              updatedAt := Some now \<rparr>
      in (userStates1(userId \<mapsto> newState), newState))"

subsection \<open>intent-handler.js\<close>

text \<open>
  The values of the \<^verbatim>\<open>intentHandlers\<close> object literal are the functions exported by
  nine handler modules (\<^verbatim>\<open>require('./welcome-handler')\<close> and so on), which the
  generator does not emit. A handler is therefore named here by the module it comes
  from. \<^verbatim>\<open>intentHandlers\<close> is an ordinary object, so a property read
  \<^verbatim>\<open>intentHandlers[intent]\<close> that finds no own property continues along the prototype
  chain to \<^verbatim>\<open>Object.prototype\<close>; \<open>ObjectPrototypeMember k\<close> is the value found there
  under the key \<open>k\<close>.
\<close>

datatype handler =
    WelcomeHandler
  | ProductInquiryHandler
  | PriceInquiryHandler
  | ShippingInquiryHandler
  | ReturnPolicyHandler
  | CheckoutHandler
  | ObjectionHandler
  | ComplaintHandler
  | GeneralQuestionHandler
  | ObjectPrototypeMember string

definition intentHandlers :: "(string \<times> handler) list" where
  "intentHandlers =
     [ (''greeting'', WelcomeHandler),
       (''product_inquiry'', ProductInquiryHandler),
       (''price_inquiry'', PriceInquiryHandler),
       (''shipping_inquiry'', ShippingInquiryHandler),
       (''return_policy'', ReturnPolicyHandler),
       (''checkout_help'', CheckoutHandler),
       (''objection'', ObjectionHandler),
       (''complaint'', ComplaintHandler),
       (''general_question'', GeneralQuestionHandler) ]"

text \<open>
  The property names every ordinary object inherits from \<^verbatim>\<open>Object.prototype\<close>.
  Each of them reads as a function, except \<^verbatim>\<open>__proto__\<close>, which reads as the
  prototype object itself; all are truthy.
\<close>

definition object_prototype_keys :: "string list" where
  "object_prototype_keys =
     [ ''constructor'', ''hasOwnProperty'', ''isPrototypeOf'', ''propertyIsEnumerable'',
       ''toLocaleString'', ''toString'', ''valueOf'', ''__proto__'',
       ''__defineGetter__'', ''__defineSetter__'', ''__lookupGetter__'', ''__lookupSetter__'' ]"

text \<open>The property read \<^verbatim>\<open>intentHandlers[intent]\<close>; \<open>None\<close> is \<^verbatim>\<open>undefined\<close>.\<close>

definition intentHandlers_get :: "string \<Rightarrow> handler option" where
  "intentHandlers_get k =
     (case map_of intentHandlers k of
        Some h \<Rightarrow> Some h
      | None \<Rightarrow> if k \<in> set object_prototype_keys then Some (ObjectPrototypeMember k) else None)"

text \<open>\<^verbatim>\<open>return intentHandlers[intent] || intentHandlers.general_question;\<close>\<close>

definition getHandlerForIntent :: "string \<Rightarrow> handler" where
  "getHandlerForIntent i =
     (case intentHandlers_get i of
        Some h \<Rightarrow> h
      | None \<Rightarrow> the (map_of intentHandlers ''general_question''))"

subsection \<open>conversation-flow-handler.js: the recommendation policy\<close>

text \<open>
  \<open>OFFER_TIMING\<close> is \<^verbatim>\<open>process.env.OFFER_TIMING\<close>: a string, or \<open>None\<close> when the
  variable is not set. \<^verbatim>\<open>process.env.OFFER_TIMING || 'balanced'\<close> replaces both an
  unset and an empty value. \<^verbatim>\<open>userState.messageCount || 0\<close> is the count itself for
  every integer.
\<close>

definition shouldOfferRecommendations :: "string option \<Rightarrow> string \<Rightarrow> user_state \<Rightarrow> bool" where
  "shouldOfferRecommendations OFFER_TIMING i userState =
     (if i = ''product_inquiry'' then True
      else
        (let offerTiming = (case OFFER_TIMING of
                              None \<Rightarrow> ''balanced''
                            | Some v \<Rightarrow> if v = [] then ''balanced'' else v);
             n = messageCount userState
         in if offerTiming = ''early'' then n \<ge> 2
            else if offerTiming = ''balanced'' then n \<ge> 3
            else n \<ge> 5))"

subsection \<open>The outside world\<close>

text \<open>
  A JavaScript value as \<^verbatim>\<open>JSON.parse\<close> can produce it, and \<^verbatim>\<open>undefined\<close> for a
  property that is not there. An object is the list of its properties, each key once.
\<close>

datatype js_value =
    JUndefined
  | JNull
  | JBoolean bool
  | JNumber rat
  | JString string
  | JArray "js_value list"
  | JObject "(string \<times> js_value) list"

text \<open>Truthiness, as \<^verbatim>\<open>||\<close> and \<^verbatim>\<open>&&\<close> test it.\<close>

fun truthy :: "js_value \<Rightarrow> bool" where
  "truthy JUndefined = False"
| "truthy JNull = False"
| "truthy (JBoolean b) = b"
| "truthy (JNumber n) = (n \<noteq> 0)"
| "truthy (JString s) = (s \<noteq> [])"
| "truthy (JArray xs) = True"
| "truthy (JObject kvs) = True"

text \<open>
  An object that \<^verbatim>\<open>classifyIntent\<close> returns, at the declared type
  \<^verbatim>\<open>{intent: string, confidence: number}\<close>.
\<close>

record intent_result =
  intent :: string
  confidence :: rat

text \<open>
  An element of \<^verbatim>\<open>actions\<close>: either something a handler returned, or the object
  \<^verbatim>\<open>{ type: 'product_recommendations', products: recommendations }\<close> that
  \<^verbatim>\<open>processMessage\<close> appends.
\<close>

datatype action = HandlerAction string | ProductRecommendations js_value

text \<open>What a handler resolves to: \<^verbatim>\<open>{ response, actions? }\<close>.\<close>

record handler_result =
  h_response :: string
  h_actions :: "action list option"

text \<open>What \<^verbatim>\<open>processMessage\<close> resolves to: \<^verbatim>\<open>{ response, actions }\<close>.\<close>

record reply =
  response :: string
  actions :: "action list"

text \<open>
  Everything the runtime takes from outside itself during one call:
  \<^item> \<open>env_OFFER_TIMING\<close>: \<^verbatim>\<open>process.env.OFFER_TIMING\<close>;
  \<^item> \<open>intentPrompt\<close>, \<open>recommendationPrompt\<close>: the prompt files read at module load;
  \<^item> \<open>chat_completions_create\<close>: \<^verbatim>\<open>openai.chat.completions.create\<close> followed by
    the read of \<^verbatim>\<open>response.choices[0].message.content\<close>, given the role-tagged
    messages of the request; \<open>Inl\<close> when either raises, \<open>Inr None\<close> when the content
    is \<^verbatim>\<open>null\<close>;
  \<^item> \<open>JSON_parse_intent\<close>: \<^verbatim>\<open>JSON.parse\<close> in \<^verbatim>\<open>classifyIntent\<close>; \<open>Inl\<close> when it
    raises, \<open>Inr None\<close> when it returns \<^verbatim>\<open>null\<close> (the text \<^verbatim>\<open>null\<close> parses to it
    without a raise), and otherwise the parsed object at its declared type;
  \<^item> \<open>JSON_parse\<close>: \<^verbatim>\<open>JSON.parse\<close> in \<^verbatim>\<open>getProductRecommendations\<close>, with any value
    as its result;
  \<^item> \<open>js_greater_zero\<close>: the comparison \<^verbatim>\<open>v > 0\<close> of the language, with its
    coercions, for a value \<open>v\<close> read from an object's \<^verbatim>\<open>length\<close> property;
  \<^item> \<open>call_handler\<close>: the call \<^verbatim>\<open>await handler(message, userState)\<close>; the handler
    modules are not part of the generator, so their behaviour is a parameter. \<open>Inl\<close> is
    a handler that throws, a value that is not callable, or a result on which the
    following reads, or the spread of its \<^verbatim>\<open>actions\<close>, raise.
\<close>

record world =
  env_OFFER_TIMING :: "string option"
  intentPrompt :: string
  recommendationPrompt :: string
  chat_completions_create :: "(string \<times> string) list \<Rightarrow> error + string option"
  JSON_parse_intent :: "string \<Rightarrow> error + intent_result option"
  JSON_parse :: "string \<Rightarrow> error + js_value"
  js_greater_zero :: "js_value \<Rightarrow> bool"
  call_handler :: "handler \<Rightarrow> string \<Rightarrow> user_state \<Rightarrow> error + handler_result"

subsection \<open>intent-handler.js: classification\<close>

definition fallback_intent :: intent_result where
  "fallback_intent = \<lparr> intent = ''general_question'', confidence = 1 / 2 \<rparr>"

text \<open>
  \<open>None\<close> is the result \<^verbatim>\<open>null\<close>: \<^verbatim>\<open>JSON.parse(content)\<close> returns it, without a
  raise, when \<^verbatim>\<open>content\<close> is \<^verbatim>\<open>null\<close> or the text \<^verbatim>\<open>null\<close>.
\<close>

definition classifyIntent :: "world \<Rightarrow> string \<Rightarrow> intent_result option" where
  "classifyIntent w m =
     (case chat_completions_create w [(''system'', intentPrompt w), (''user'', m)] of
        Inl e \<Rightarrow> Some fallback_intent
      | Inr None \<Rightarrow> None
      | Inr (Some c) \<Rightarrow>
          (case JSON_parse_intent w c of
             Inl e \<Rightarrow> Some fallback_intent
           | Inr r \<Rightarrow> r))"

subsection \<open>product-recommendation-handler.js\<close>

text \<open>
  The function is embedded as its text reads: every \<^verbatim>\<open>${...}\<close> of the prompt is an
  interpolation of the emitted function, over its own \<^verbatim>\<open>message\<close>,
  \<^verbatim>\<open>userPreferences\<close> and \<^verbatim>\<open>conversationContext\<close>. (In the generator's template only the
  two interpolations of the history line are escaped.)
\<close>

text \<open>\<^verbatim>\<open>xs.slice(-n)\<close>: the last \<open>n\<close> elements, or all of them when there are fewer.\<close>

definition slice_last :: "nat \<Rightarrow> 'a list \<Rightarrow> 'a list" where
  "slice_last n xs = drop (length xs - n) xs"

text \<open>\<^verbatim>\<open>xs.join(sep)\<close> on an array of strings.\<close>

fun join :: "string \<Rightarrow> string list \<Rightarrow> string" where
  "join sep [] = []"
| "join sep [x] = x"
| "join sep (x # y # ys) = x @ sep @ join sep (y # ys)"

definition newline :: string where
  "newline = [CHR 0x0A]"

text \<open>The lines of the prompt that come from the conversation history.\<close>

definition history_lines :: "user_state \<Rightarrow> string list" where
  "history_lines userState =
     map (\<lambda>msg. role msg @ '': '' @ content msg) (slice_last 5 (conversationHistory userState))"

definition contextPrompt :: "string \<Rightarrow> user_state \<Rightarrow> string" where
  "contextPrompt m userState =
     newline @ ''User message: '' @ m @ newline @ newline @
     ''User preferences:'' @ newline @
     join newline (map (\<lambda>(k, v). ''- '' @ k @ '': '' @ v) (preferences userState)) @
     newline @ newline @
     ''Conversation history:'' @ newline @
     join newline (history_lines userState) @ newline"

text \<open>
  The read \<^verbatim>\<open>result.recommendations\<close>: a \<^verbatim>\<open>TypeError\<close> on \<^verbatim>\<open>null\<close>, the property of
  an object, and \<^verbatim>\<open>undefined\<close> where there is no such property.
\<close>

fun read_recommendations :: "js_value \<Rightarrow> error + js_value" where
  "read_recommendations JNull = Inl TypeError"
| "read_recommendations JUndefined = Inl TypeError"
| "read_recommendations (JObject kvs) =
     Inr (case map_of kvs ''recommendations'' of None \<Rightarrow> JUndefined | Some v \<Rightarrow> v)"
| "read_recommendations v = Inr JUndefined"

text \<open>
  \<^verbatim>\<open>return result.recommendations || [];\<close> inside the \<^verbatim>\<open>try\<close>, and \<^verbatim>\<open>return [];\<close>
  in the \<^verbatim>\<open>catch\<close>. \<^verbatim>\<open>JSON.parse(null)\<close> is \<^verbatim>\<open>null\<close>.
\<close>

definition getProductRecommendations :: "world \<Rightarrow> string \<Rightarrow> user_state \<Rightarrow> js_value" where
  "getProductRecommendations w m userState =
     (case chat_completions_create w
             [(''system'', recommendationPrompt w), (''user'', contextPrompt m userState)] of
        Inl e \<Rightarrow> JArray []
      | Inr c \<Rightarrow>
          (case (case c of None \<Rightarrow> Inr JNull | Some t \<Rightarrow> JSON_parse w t) of
             Inl e \<Rightarrow> JArray []
           | Inr result \<Rightarrow>
               (case read_recommendations result of
                  Inl e \<Rightarrow> JArray []
                | Inr v \<Rightarrow> if truthy v then v else JArray [])))"

subsection \<open>conversation-flow-handler.js: the orchestrator\<close>

definition apology :: reply where
  "apology =
     \<lparr> response = ''I'' @ [CHR 0x27] @ ''m sorry, I'' @ [CHR 0x27] @
         ''m having trouble processing your request right now. Can you try again?'',
       actions = [] \<rparr>"

text \<open>
  \<^verbatim>\<open>recommendations && recommendations.length > 0\<close>. An array and a string have
  their length; a number and a boolean have none, and \<^verbatim>\<open>undefined > 0\<close> is false; an
  object has the \<^verbatim>\<open>length\<close> it carries, if any.
\<close>

definition has_items :: "world \<Rightarrow> js_value \<Rightarrow> bool" where
  "has_items w v =
     (truthy v \<and>
      (case v of
         JArray xs \<Rightarrow> xs \<noteq> []
       | JString s \<Rightarrow> s \<noteq> []
       | JObject kvs \<Rightarrow>
           (case map_of kvs ''length'' of None \<Rightarrow> False | Some l \<Rightarrow> js_greater_zero w l)
       | _ \<Rightarrow> False))"

text \<open>
  \<^verbatim>\<open>processMessage\<close> is an \<^verbatim>\<open>async\<close> function: between two of its \<^verbatim>\<open>await\<close>s other
  calls may run. It touches the store twice: \<^verbatim>\<open>getUserState\<close> before the classifier
  is awaited, and \<^verbatim>\<open>updateUserState\<close> after it has answered. \<open>processMessage_body\<close>
  is the \<^verbatim>\<open>try\<close> block from the classifier's answer on, given the object
  \<open>userState\<close> that was read before and the store as it is by then.

  Destructuring \<^verbatim>\<open>const { intent, confidence } = await classifyIntent(message)\<close>
  raises a \<^verbatim>\<open>TypeError\<close> on \<^verbatim>\<open>null\<close>, before the state is updated.
  \<^verbatim>\<open>updateUserState\<close> stores a fresh object and its return value is dropped, so the
  handler and the recommendation policy are called with the object read before the
  update. A raise leaves the block with \<open>Inl\<close>; the store keeps what was written
  before the raise.
\<close>

definition processMessage_body ::
  "world \<Rightarrow> store \<Rightarrow> string \<Rightarrow> string \<Rightarrow> user_state \<Rightarrow> nat \<Rightarrow> store \<times> (error + reply)" where
  "processMessage_body w userStates userId m userState now =
     (case classifyIntent w m of
        None \<Rightarrow> (userStates, Inl TypeError)
      | Some r \<Rightarrow>
          (let (userStates2, updated) =
                 updateUserState userStates userId
                   \<lparr> upd_lastIntent = Some (intent r),
                     upd_lastMessage = Some m,
                     upd_messageCount = Some (messageCount userState + 1) \<rparr> now;
               h = getHandlerForIntent (intent r)
           in case call_handler w h m userState of
                Inl e \<Rightarrow> (userStates2, Inl e)
              | Inr result \<Rightarrow>
                  (let actions0 = (case h_actions result of None \<Rightarrow> [] | Some a \<Rightarrow> a);
                       actions1 =
                         (if shouldOfferRecommendations (env_OFFER_TIMING w) (intent r) userState
                          then (let recommendations = getProductRecommendations w m userState
                                in if has_items w recommendations
                                   then actions0 @ [ProductRecommendations recommendations]
                                   else actions0)
                          else actions0)
                   in (userStates2, Inr \<lparr> response = h_response result, actions = actions1 \<rparr>))))"

text \<open>
  The \<^verbatim>\<open>catch\<close> clause: it logs the error and returns the apology. What the caller
  of an \<^verbatim>\<open>async\<close> function can see is either a value (\<open>Inr\<close>) or a rejection (\<open>Inl\<close>).
\<close>

definition processMessage_catch :: "error \<Rightarrow> error + reply" where
  "processMessage_catch e = Inr apology"

text \<open>The call from the classifier's answer on: the block above inside its \<^verbatim>\<open>catch\<close>.\<close>

definition processMessage_resume ::
  "world \<Rightarrow> store \<Rightarrow> string \<Rightarrow> string \<Rightarrow> user_state \<Rightarrow> nat \<Rightarrow> store \<times> (error + reply)" where
  "processMessage_resume w userStates userId m userState now =
     (case processMessage_body w userStates userId m userState now of
        (userStates2, Inl e) \<Rightarrow> (userStates2, processMessage_catch e)
      | (userStates2, Inr result) \<Rightarrow> (userStates2, Inr result))"

text \<open>\<^verbatim>\<open>processMessage\<close> when no other call runs between its \<^verbatim>\<open>await\<close>s.\<close>

definition processMessage ::
  "world \<Rightarrow> store \<Rightarrow> string \<Rightarrow> string \<Rightarrow> nat \<Rightarrow> store \<times> (error + reply)" where
  "processMessage w userStates userId m now =
     (let (userStates1, userState) = getUserState userStates userId now
      in processMessage_resume w userStates1 userId m userState now)"

subsection \<open>Calls one after the other\<close>

text \<open>
  The two operations the controller performs,
  \<^verbatim>\<open>processMessage(conversationId, message)\<close> and
  \<^verbatim>\<open>addBotResponse(conversationId, result.response)\<close>, each run to its end before the
  next one starts. The world may be a different one at every call.
\<close>

datatype operation =
    ProcessMessage world string string nat
  | AddBotResponse string string nat

fun apply_operation :: "store \<Rightarrow> operation \<Rightarrow> store" where
  "apply_operation userStates (ProcessMessage w userId m now) =
     fst (processMessage w userStates userId m now)"
| "apply_operation userStates (AddBotResponse userId r now) =
     fst (addBotResponse userStates userId r now)"

definition run :: "store \<Rightarrow> operation list \<Rightarrow> store" where
  "run userStates ops = foldl apply_operation userStates ops"

text \<open>The inbound user messages of one user among a sequence of operations.\<close>

fun is_inbound :: "string \<Rightarrow> operation \<Rightarrow> bool" where
  "is_inbound userId (ProcessMessage w u m now) = (u = userId)"
| "is_inbound userId (AddBotResponse u r now) = False"

definition inbound_count :: "string \<Rightarrow> operation list \<Rightarrow> nat" where
  "inbound_count userId ops = length (filter (is_inbound userId) ops)"

text \<open>
  Those among them whose classification returned an object, so that the call reached
  its state update.
\<close>

fun is_classified :: "string \<Rightarrow> operation \<Rightarrow> bool" where
  "is_classified userId (ProcessMessage w u m now) = (u = userId \<and> classifyIntent w m \<noteq> None)"
| "is_classified userId (AddBotResponse u r now) = False"

definition classified_count :: "string \<Rightarrow> operation list \<Rightarrow> nat" where
  "classified_count userId ops = length (filter (is_classified userId) ops)"

subsection \<open>Calls that overlap\<close>

text \<open>
  The event loop runs one piece of one call at a time. A call of \<^verbatim>\<open>processMessage\<close>
  is two pieces as far as the store goes: \<open>Receive\<close> reads the user's state and
  leaves the call waiting for the classifier; \<open>Resume k\<close> is the classifier's answer
  to the \<open>k\<close>-th waiting call, which then runs to its end with the state object it read
  when it was received. \<open>Respond\<close> is \<^verbatim>\<open>addBotResponse\<close>, which does not wait.
\<close>

datatype event =
    Receive string string nat
  | Resume nat world nat
  | Respond string string nat

text \<open>A waiting call: the user id, the message, and the state object it has read.\<close>

type_synonym waiting = "string \<times> string \<times> user_state"

fun handle_event :: "store \<times> waiting list \<Rightarrow> event \<Rightarrow> store \<times> waiting list" where
  "handle_event (userStates, calls) (Receive userId m now) =
     (fst (getUserState userStates userId now),
      calls @ [(userId, m, snd (getUserState userStates userId now))])"
| "handle_event (userStates, calls) (Resume k w now) =
     (if k < length calls
      then (case calls ! k of
              (userId, m, userState) \<Rightarrow>
                (fst (processMessage_resume w userStates userId m userState now),
                 take k calls @ drop (Suc k) calls))
      else (userStates, calls))"
| "handle_event (userStates, calls) (Respond userId r now) =
     (fst (addBotResponse userStates userId r now), calls)"

definition exec :: "store \<times> waiting list \<Rightarrow> event list \<Rightarrow> store \<times> waiting list" where
  "exec c events = foldl handle_event c events"


text \<open>The number of history entries whose role is \<^verbatim>\<open>user\<close>.\<close>

definition user_entries :: "user_state \<Rightarrow> nat" where
  "user_entries state = length (filter (\<lambda>msg. role msg = ''user'') (conversationHistory state))"

text \<open>The number of history entries \<^verbatim>\<open>{role: 'user', content: m}\<close>.\<close>

definition stored_copies :: "string \<Rightarrow> user_state \<Rightarrow> nat" where
  "stored_copies m state =
     length (filter (\<lambda>msg. role msg = ''user'' \<and> content msg = m) (conversationHistory state))"

text \<open>The \<^verbatim>\<open>updates\<close> object that \<^verbatim>\<open>processMessage\<close> builds.\<close>

definition message_update :: "string \<Rightarrow> string \<Rightarrow> int \<Rightarrow> state_updates" where
  "message_update i m n =
     \<lparr> upd_lastIntent = Some i, upd_lastMessage = Some m, upd_messageCount = Some n \<rparr>"

subsection \<open>Concrete worlds\<close>

text \<open>\<^verbatim>\<open>v > 0\<close> on numbers, booleans, \<^verbatim>\<open>null\<close> and \<^verbatim>\<open>undefined\<close>.\<close>

fun plain_greater_zero :: "js_value \<Rightarrow> bool" where
  "plain_greater_zero (JNumber n) = (n > 0)"
| "plain_greater_zero (JBoolean b) = b"
| "plain_greater_zero v = False"

text \<open>
  Worlds on which the runtime can be evaluated. In \<open>offline_world\<close> the completion
  service cannot be reached and every handler answers with a fixed line. In
  \<open>scripted_world\<close> the service answers every request with the text of its last
  message; for the classifier that text parses to an intent of that name, for the
  recommender to an object with one recommended product; the timing is
  \<^verbatim>\<open>balanced\<close>. \<open>throwing_world\<close> is \<open>scripted_world\<close> with handlers that throw,
  \<open>silent_world\<close> is \<open>offline_world\<close> with handlers that answer the empty string,
  \<open>null_world\<close> is \<open>scripted_world\<close> with a classifier answer that parses to
  \<^verbatim>\<open>null\<close>, and in \<open>prose_world\<close> the recommender's answer carries a sentence where
  the array should be.
\<close>

definition offline_world :: world where
  "offline_world =
     \<lparr> env_OFFER_TIMING = None,
       intentPrompt = ''classify'',
       recommendationPrompt = ''recommend'',
       chat_completions_create = (\<lambda>messages. Inl TransportError),
       JSON_parse_intent = (\<lambda>c. Inl SyntaxError),
       JSON_parse = (\<lambda>c. Inl SyntaxError),
       js_greater_zero = plain_greater_zero,
       call_handler = (\<lambda>h m state. Inr \<lparr> h_response = ''How can I help?'', h_actions = None \<rparr>) \<rparr>"

definition scripted_world :: world where
  "scripted_world =
     \<lparr> env_OFFER_TIMING = Some ''balanced'',
       intentPrompt = ''classify'',
       recommendationPrompt = ''recommend'',
       chat_completions_create = (\<lambda>messages. Inr (Some (snd (last messages)))),
       JSON_parse_intent = (\<lambda>c. Inr (Some \<lparr> intent = c, confidence = 1 \<rparr>)),
       JSON_parse = (\<lambda>c. Inr (JObject [(''recommendations'', JArray [JString ''skateboard''])])),
       js_greater_zero = plain_greater_zero,
       call_handler = (\<lambda>h m state. Inr \<lparr> h_response = ''ok'', h_actions = None \<rparr>) \<rparr>"

definition throwing_world :: world where
  "throwing_world =
     scripted_world \<lparr> call_handler := (\<lambda>h m state. Inl (HandlerError ''handler failed'')) \<rparr>"

definition silent_world :: world where
  "silent_world =
     offline_world \<lparr> call_handler := (\<lambda>h m state. Inr \<lparr> h_response = [], h_actions = None \<rparr>) \<rparr>"

definition null_world :: world where
  "null_world = scripted_world \<lparr> JSON_parse_intent := (\<lambda>c. Inr None) \<rparr>"

definition prose_world :: world where
  "prose_world =
     scripted_world
       \<lparr> JSON_parse := (\<lambda>c. Inr (JObject [(''recommendations'', JString ''none in stock'')])) \<rparr>"

text \<open>A state whose history holds six entries, one more than the prompt window.\<close>

definition six_entry_state :: user_state where
  "six_entry_state = (default_state 0)
     \<lparr> conversationHistory :=
         [ \<lparr> role = ''user'', content = ''one'', timestamp = 1 \<rparr>,
           \<lparr> role = ''assistant'', content = ''two'', timestamp = 2 \<rparr>,
           \<lparr> role = ''user'', content = ''three'', timestamp = 3 \<rparr>,
           \<lparr> role = ''assistant'', content = ''four'', timestamp = 4 \<rparr>,
           \<lparr> role = ''user'', content = ''five'', timestamp = 5 \<rparr>,
           \<lparr> role = ''assistant'', content = ''six'', timestamp = 6 \<rparr> ] \<rparr>"

section \<open>The specification's wording, for comparison\<close>

subsection \<open>Recommendation timing as the specification words it\<close>

text \<open>
  The threshold of the specification: early gives 2, balanced gives 3, any other value,
  an unset one included, gives 5.
\<close>

definition spec_threshold :: "string option \<Rightarrow> int" where
  "spec_threshold timing =
     (if timing = Some ''early'' then 2 else if timing = Some ''balanced'' then 3 else 5)"

definition spec_shouldRecommend :: "string option \<Rightarrow> string \<Rightarrow> user_state \<Rightarrow> bool" where
  "spec_shouldRecommend timing i state =
     (i = ''product_inquiry'' \<or> messageCount state \<ge> spec_threshold timing)"

subsection \<open>The append guard as the specification words it\<close>

text \<open>
  The specification's guard: the append is skipped exactly when the pair of role
  \<^verbatim>\<open>user\<close> and the message's content is the last entry of the history.
\<close>

definition spec_trails :: "string \<Rightarrow> history_entry list \<Rightarrow> bool" where
  "spec_trails m history =
     (case rev history of
        [] \<Rightarrow> False
      | e # _ \<Rightarrow> role e = ''user'' \<and> content e = m)"

definition spec_append :: "string \<Rightarrow> nat \<Rightarrow> history_entry list \<Rightarrow> history_entry list" where
  "spec_append m now history =
     (if spec_trails m history then history
      else history @ [\<lparr> role = ''user'', content = m, timestamp = now \<rparr>])"

subsection \<open>Stage derivation as a rule list\<close>

text \<open>
  The rule list as the specification words it: an ordered list of guarded labels over
  the pair \<open>(messageCount, lastIntent)\<close>, the first guard that holds decides, and a
  default label when none does.
\<close>

fun first_match :: "(('a \<Rightarrow> bool) \<times> 'b) list \<Rightarrow> 'b \<Rightarrow> 'a \<Rightarrow> 'b" where
  "first_match [] d x = d"
| "first_match ((p, v) # rules) d x = (if p x then v else first_match rules d x)"

definition spec_stage_rules :: "((int \<times> string option \<Rightarrow> bool) \<times> string) list" where
  "spec_stage_rules =
     [ (\<lambda>(n, li). n \<le> 1, ''greeting''),
       (\<lambda>(n, li). li = Some ''checkout_help'', ''checkout''),
       (\<lambda>(n, li). li = Some ''product_inquiry'' \<or> li = Some ''price_inquiry'', ''product_discovery''),
       (\<lambda>(n, li). li = Some ''objection'', ''objection_handling''),
       (\<lambda>(n, li). n \<ge> 5, ''engagement'') ]"

definition spec_deriveStage :: "int \<Rightarrow> string option \<Rightarrow> string" where
  "spec_deriveStage n li = first_match spec_stage_rules ''information'' (n, li)"

section \<open>Verified properties\<close>

subsection \<open>The store operations, one call at a time\<close>

lemma getUserState_snd:
  "snd (getUserState S u now) = (case S u of None \<Rightarrow> default_state now | Some s \<Rightarrow> s)"
  by (simp add: getUserState_def split: option.splits)

lemma getUserState_fst:
  "fst (getUserState S u now) = S(u \<mapsto> snd (getUserState S u now))"
  by (auto simp: getUserState_def split: option.splits)

lemma getUserState_idem:
  "getUserState (fst (getUserState S u now)) u now' = (fst (getUserState S u now), snd (getUserState S u now))"
  by (auto simp: getUserState_def split: option.splits)

lemma getUserState_known: "S u = Some st \<Longrightarrow> snd (getUserState S u now) = st"
  by (simp add: getUserState_snd)

lemma message_update_sel:
  "upd_lastIntent (message_update i m n) = Some i"
  "upd_lastMessage (message_update i m n) = Some m"
  "upd_messageCount (message_update i m n) = Some n"
  by (simp_all add: message_update_def)

lemma updateUserState_fst:
  "fst (updateUserState S u upd now) = S(u \<mapsto> snd (updateUserState S u upd now))"
  by (simp add: updateUserState_def Let_def case_prod_beta getUserState_fst)

lemma updateUserState_after_get:
  "updateUserState (fst (getUserState S u now)) u upd now = 
   (fst (updateUserState S u upd now), snd (updateUserState S u upd now))"
  by (simp add: updateUserState_def Let_def case_prod_beta getUserState_idem)

lemma updateUserState_messageCount:
  "messageCount (snd (updateUserState S u (message_update i m n) now)) = n"
  by (simp add: updateUserState_def message_update_def Let_def case_prod_beta)

lemma updateUserState_lastIntent:
  "lastIntent (snd (updateUserState S u (message_update i m n) now)) = Some i"
  by (simp add: updateUserState_def message_update_def Let_def case_prod_beta)

lemma updateUserState_history:
  "conversationHistory (snd (updateUserState S u upd now)) =
     (if is_new_message upd (snd (getUserState S u now))
      then conversationHistory (snd (getUserState S u now)) @
           [\<lparr> role = ''user'', content = the (upd_lastMessage upd), timestamp = now \<rparr>]
      else conversationHistory (snd (getUserState S u now)))"
  by (simp add: updateUserState_def Let_def case_prod_beta)

lemma updateUserState_stage:
  "stage (snd (updateUserState S u upd now)) =
     determineConversationStage (snd (updateUserState S u upd now))"
  by (simp add: updateUserState_def Let_def determineConversationStage_def case_prod_beta)

lemma addBotResponse_fst:
  "fst (addBotResponse S u r now) = S(u \<mapsto> snd (addBotResponse S u r now))"
  by (simp add: addBotResponse_def Let_def case_prod_beta getUserState_fst)

lemma addBotResponse_snd:
  "snd (addBotResponse S u r now) = (snd (getUserState S u now))
      \<lparr> conversationHistory := conversationHistory (snd (getUserState S u now)) @
            [\<lparr> role = ''assistant'', content = r, timestamp = now \<rparr>],
        updatedAt := Some now \<rparr>"
  by (simp add: addBotResponse_def Let_def case_prod_beta)

lemma apology_response_nonempty: "response apology \<noteq> []"
  by (simp add: apology_def)

lemma getHandlerForIntent_general: "getHandlerForIntent ''general_question'' = GeneralQuestionHandler"
  by (simp add: getHandlerForIntent_def intentHandlers_get_def intentHandlers_def)

lemma shouldOfferRecommendations_threshold:
  "shouldOfferRecommendations timing i state =
     (i = ''product_inquiry'' \<or>
      messageCount state \<ge>
        (if timing = Some ''early'' then 2
         else if timing = Some ''balanced'' \<or> timing = None \<or> timing = Some [] then 3
         else 5))"
  by (auto simp: shouldOfferRecommendations_def Let_def split: option.splits)


lemma list_ex_stored_copies:
  "list_ex (\<lambda>e. role e = ''user'' \<and> content e = m) (conversationHistory st) = (stored_copies m st \<noteq> 0)"
  by (simp add: stored_copies_def list_ex_iff filter_empty_conv)

lemma first_turn_state:
  "snd (updateUserState Map.empty ''u'' (message_update i ''hi'' 1) 0) =
     \<lparr> conversationHistory = [\<lparr> role = ''user'', content = ''hi'', timestamp = 0 \<rparr>],
       preferences = [], lastIntent = Some i, lastMessage = Some ''hi'',
       messageCount = 1, stage = ''greeting'', createdAt = 0, updatedAt = Some 0 \<rparr>"
  by (simp add: updateUserState_def getUserState_def default_state_def Let_def
        message_update_def is_new_message_def determineConversationStage_def)

subsection \<open>The orchestrator, one call at a time\<close>

lemma processMessage_body_fst:
  "fst (processMessage_body w S u m st now) =
     (case classifyIntent w m of
        None \<Rightarrow> S
      | Some r \<Rightarrow> S(u \<mapsto> snd (updateUserState S u
                     (message_update (intent r) m (messageCount st + 1)) now)))"
  by (simp add: processMessage_body_def Let_def message_update_def case_prod_beta
        updateUserState_fst split: option.splits sum.splits)

lemma processMessage_body_snd:
  "snd (processMessage_body w S u m st now) =
     (case classifyIntent w m of
        None \<Rightarrow> Inl TypeError
      | Some r \<Rightarrow>
          (case call_handler w (getHandlerForIntent (intent r)) m st of
             Inl e \<Rightarrow> Inl e
           | Inr result \<Rightarrow>
               Inr \<lparr> response = h_response result,
                     actions = (case h_actions result of None \<Rightarrow> [] | Some a \<Rightarrow> a) @
                       (if shouldOfferRecommendations (env_OFFER_TIMING w) (intent r) st
                           \<and> has_items w (getProductRecommendations w m st)
                        then [ProductRecommendations (getProductRecommendations w m st)]
                        else []) \<rparr>))"
  by (simp add: processMessage_body_def Let_def case_prod_beta split: option.splits sum.splits)

lemma processMessage_resume_fst:
  "fst (processMessage_resume w S u m st now) = fst (processMessage_body w S u m st now)"
  by (simp add: processMessage_resume_def split: prod.splits sum.splits)

lemma processMessage_resume_snd:
  "snd (processMessage_resume w S u m st now) =
     (case snd (processMessage_body w S u m st now) of
        Inl e \<Rightarrow> Inr apology
      | Inr r \<Rightarrow> Inr r)"
  by (simp add: processMessage_resume_def processMessage_catch_def split: prod.splits sum.splits)

lemma processMessage_as_resume:
  "processMessage w S u m now =
     processMessage_resume w (fst (getUserState S u now)) u m (snd (getUserState S u now)) now"
  by (simp add: processMessage_def case_prod_beta)

lemma processMessage_fst:
  "fst (processMessage w S u m now) =
     (case classifyIntent w m of
        None \<Rightarrow> fst (getUserState S u now)
      | Some r \<Rightarrow> S(u \<mapsto> snd (updateUserState S u
                     (message_update (intent r) m
                        (messageCount (snd (getUserState S u now)) + 1)) now)))"
proof (cases "classifyIntent w m")
  case None
  then show ?thesis
    by (simp add: processMessage_as_resume processMessage_resume_fst processMessage_body_fst)
next
  case (Some r)
  have "fst (updateUserState (fst (getUserState S u now)) u
              (message_update (intent r) m (messageCount (snd (getUserState S u now)) + 1)) now)
        = S(u \<mapsto> snd (updateUserState S u
              (message_update (intent r) m (messageCount (snd (getUserState S u now)) + 1)) now))"
    by (simp add: updateUserState_after_get updateUserState_fst)
  moreover have "fst (processMessage w S u m now) =
      fst (updateUserState (fst (getUserState S u now)) u
              (message_update (intent r) m (messageCount (snd (getUserState S u now)) + 1)) now)"
    using Some
    by (simp add: processMessage_as_resume processMessage_resume_fst processMessage_body_def
          Let_def case_prod_beta message_update_def split: sum.splits)
  ultimately show ?thesis using Some by simp
qed

lemma classifyIntent_fallback:
  "chat_completions_create w [(''system'', intentPrompt w), (''user'', m)] = Inl e
   \<or> (\<exists>c. chat_completions_create w [(''system'', intentPrompt w), (''user'', m)] = Inr (Some c)
           \<and> JSON_parse_intent w c = Inl e)
   \<Longrightarrow> classifyIntent w m = Some fallback_intent"
  by (auto simp: classifyIntent_def)

lemma update_step:
  fixes S u i m n now st
  defines "st' \<equiv> snd (updateUserState S u (message_update i m n) now)"
  assumes "S u = Some st"
  shows "messageCount st' = n"
    and "lastIntent st' = Some i"
    and "prefix (conversationHistory st) (conversationHistory st')"
    and "stage st' = determineConversationStage st'"
    and "user_entries st' \<le> user_entries st + 1"
    and "list_ex (\<lambda>e. role e = ''user'' \<and> content e = m) (conversationHistory st)
         \<Longrightarrow> user_entries st' = user_entries st"
  using assms
  by (simp_all add: updateUserState_messageCount updateUserState_history updateUserState_stage
        updateUserState_lastIntent
        getUserState_known user_entries_def is_new_message_def message_update_sel)

lemma bot_step:
  fixes S u r now st
  defines "st' \<equiv> snd (addBotResponse S u r now)"
  assumes "S u = Some st"
  shows "messageCount st' = messageCount st"
    and "prefix (conversationHistory st) (conversationHistory st')"
    and "stage st' = stage st" and "lastIntent st' = lastIntent st"
    and "user_entries st' = user_entries st"
  using assms
  by (simp_all add: addBotResponse_snd getUserState_known user_entries_def)

lemma fresh_update_step:
  fixes S u i m n now
  defines "st' \<equiv> snd (updateUserState S u (message_update i m n) now)"
  assumes "S u = None"
  shows "messageCount st' = n"
    and "stage st' = determineConversationStage st'"
    and "user_entries st' \<le> 1"
  using assms
  by (simp_all add: updateUserState_messageCount updateUserState_history updateUserState_stage
        getUserState_snd user_entries_def is_new_message_def message_update_sel default_state_def)

lemma fresh_bot_step:
  fixes S u r now
  defines "st' \<equiv> snd (addBotResponse S u r now)"
  assumes "S u = None"
  shows "messageCount st' = 0"
    and "stage st' = determineConversationStage st'"
    and "user_entries st' = 0"
  using assms
  by (simp_all add: addBotResponse_snd getUserState_snd user_entries_def default_state_def
        determineConversationStage_def)

lemma default_state_facts:
  "messageCount (default_state now) = 0"
  "stage (default_state now) = determineConversationStage (default_state now)"
  "user_entries (default_state now) = 0"
  by (simp_all add: default_state_def determineConversationStage_def user_entries_def)

subsection \<open>Events and operations, one at a time and in sequence\<close>


lemma apply_operation_cases:
  "apply_operation S op u = S u
   \<or> (\<exists>now. apply_operation S op u = Some (snd (getUserState S u now)))
   \<or> (\<exists>i m now. apply_operation S op u =
         Some (snd (updateUserState S u
           (message_update i m (messageCount (snd (getUserState S u now)) + 1)) now)))
   \<or> (\<exists>r now. apply_operation S op u = Some (snd (addBotResponse S u r now)))"
proof (cases op)
  case (ProcessMessage w v m now)
  show ?thesis
  proof (cases "classifyIntent w m")
    case None
    with ProcessMessage show ?thesis
      by (cases "v = u") (auto simp: processMessage_fst getUserState_fst)
  next
    case (Some r)
    with ProcessMessage show ?thesis
      by (cases "v = u") (auto simp: processMessage_fst)
  qed
next
  case (AddBotResponse v r now)
  then show ?thesis
    by (cases "v = u") (auto simp: addBotResponse_fst)
qed








lemma operation_step:
  assumes "S u = Some st"
  shows "\<exists>st'. apply_operation S op u = Some st'
           \<and> messageCount st \<le> messageCount st'
           \<and> messageCount st - int (user_entries st) \<le> messageCount st' - int (user_entries st')"
proof -
  consider (same) "apply_operation S op u = S u"
    | (load) now where "apply_operation S op u = Some (snd (getUserState S u now))"
    | (msg) i m now where "apply_operation S op u =
         Some (snd (updateUserState S u
           (message_update i m (messageCount (snd (getUserState S u now)) + 1)) now))"
    | (bot) r now where "apply_operation S op u = Some (snd (addBotResponse S u r now))"
    using apply_operation_cases [of S op u] by blast
  then show ?thesis
  proof cases
    case same
    with assms show ?thesis by simp
  next
    case load
    with assms show ?thesis by (simp add: getUserState_known)
  next
    case msg
    let ?st' = "snd (updateUserState S u (message_update i m (messageCount st + 1)) now)"
    have eq: "apply_operation S op u = Some ?st'"
      using msg assms by (simp add: getUserState_known)
    have "messageCount ?st' = messageCount st + 1"
      and "user_entries ?st' \<le> user_entries st + 1"
      using assms update_step [of S u st i m "messageCount st + 1" now] by blast+
    with eq show ?thesis by simp
  next
    case bot
    let ?st' = "snd (addBotResponse S u r now)"
    have "messageCount ?st' = messageCount st"
      and "user_entries ?st' = user_entries st"
      using assms bot_step [of S u st r now] by blast+
    with bot show ?thesis by simp
  qed
qed

lemma operation_fresh:
  assumes "S u = None"
  shows "apply_operation S op u = None
         \<or> (\<exists>st'. apply_operation S op u = Some st'
               \<and> int (user_entries st') \<le> messageCount st')"
proof -
  consider (same) "apply_operation S op u = S u"
    | (load) now where "apply_operation S op u = Some (snd (getUserState S u now))"
    | (msg) i m now where "apply_operation S op u =
         Some (snd (updateUserState S u
           (message_update i m (messageCount (snd (getUserState S u now)) + 1)) now))"
    | (bot) r now where "apply_operation S op u = Some (snd (addBotResponse S u r now))"
    using apply_operation_cases [of S op u] by blast
  then show ?thesis
  proof cases
    case same
    with assms show ?thesis by simp
  next
    case load
    with assms show ?thesis by (simp add: getUserState_snd default_state_facts)
  next
    case msg
    have "messageCount (snd (getUserState S u now)) = 0"
      using assms by (simp add: getUserState_snd default_state_facts)
    with msg assms fresh_update_step [of S u i m 1 now] show ?thesis by simp
  next
    case bot
    with assms fresh_bot_step [of S u r now] show ?thesis by simp
  qed
qed

lemma run_Cons: "run S (op # ops) = run (apply_operation S op) ops"
  by (simp add: run_def)

lemma run_Nil: "run S [] = S"
  by (simp add: run_def)

lemma run_step:
  "S u = Some st \<Longrightarrow>
   \<exists>st'. run S ops u = Some st'
     \<and> messageCount st \<le> messageCount st'
     \<and> messageCount st - int (user_entries st) \<le> messageCount st' - int (user_entries st')"
proof (induction ops arbitrary: S st)
  case Nil
  then show ?case by (simp add: run_Nil)
next
  case (Cons op ops)
  from Cons.prems operation_step [of S u st op] obtain st1 where
    s1: "apply_operation S op u = Some st1"
    and m1: "messageCount st \<le> messageCount st1"
    and c1: "messageCount st - int (user_entries st) \<le> messageCount st1 - int (user_entries st1)"
    by blast
  from s1 Cons.IH [of "apply_operation S op" st1] obtain st2 where
    s2: "run (apply_operation S op) ops u = Some st2"
    and m2: "messageCount st1 \<le> messageCount st2"
    and c2: "messageCount st1 - int (user_entries st1) \<le> messageCount st2 - int (user_entries st2)"
    by blast
  with s2 m1 m2 c1 c2 show ?case
    by (simp add: run_Cons)
qed

lemma run_invariant:
  "\<forall>st. S u = Some st \<longrightarrow> int (user_entries st) \<le> messageCount st \<Longrightarrow>
   run S ops u = Some st' \<Longrightarrow>
   int (user_entries st') \<le> messageCount st'"
proof (induction ops arbitrary: S)
  case Nil
  then show ?case by (simp add: run_Nil)
next
  case (Cons op ops)
  have "\<forall>st. apply_operation S op u = Some st \<longrightarrow> int (user_entries st) \<le> messageCount st"
  proof (cases "S u")
    case None
    from None operation_fresh [of S u op] show ?thesis by auto
  next
    case (Some st0)
    with Cons.prems(1) have c: "int (user_entries st0) \<le> messageCount st0" by simp
    from Some operation_step [of S u st0 op] c show ?thesis by auto
  qed
  from this Cons.IH [of "apply_operation S op"] Cons.prems(2) show ?case by (simp add: run_Cons)
qed

lemma operation_messageCount:
  "messageCount (snd (getUserState (apply_operation S op) u now)) =
     messageCount (snd (getUserState S u now')) + (if is_classified u op then 1 else 0)"
proof (cases op)
  case (ProcessMessage w v m t)
  then show ?thesis
    by (auto simp: processMessage_fst getUserState_snd getUserState_fst
          updateUserState_messageCount default_state_def split: option.splits)
next
  case (AddBotResponse v r t)
  then show ?thesis
    by (simp add: addBotResponse_fst addBotResponse_snd getUserState_snd
          default_state_def split: option.splits)
qed

lemma run_messageCount:
  "messageCount (snd (getUserState (run S ops) u now)) =
     messageCount (snd (getUserState S u now)) + int (classified_count u ops)"
proof (induction ops arbitrary: S)
  case Nil
  then show ?case by (simp add: run_Nil classified_count_def)
next
  case (Cons op ops)
  show ?case
    using Cons.IH [of "apply_operation S op"] operation_messageCount [of S op u now now]
    by (simp add: run_Cons classified_count_def)
qed



subsection \<open>The prompt window\<close>

lemma slice_last_length: "length (slice_last n xs) \<le> n"
  by (simp add: slice_last_def)

lemma slice_last_idem: "slice_last n (slice_last n xs) = slice_last n xs"
  by (simp add: slice_last_def)

lemma slice_last_append: "n \<le> length ys \<Longrightarrow> slice_last n (xs @ ys) = slice_last n ys"
  by (simp add: slice_last_def)

lemma contextPrompt_window:
  "preferences a = preferences b \<Longrightarrow> history_lines a = history_lines b \<Longrightarrow>
   contextPrompt m a = contextPrompt m b"
  by (simp add: contextPrompt_def)

lemma getProductRecommendations_prompt:
  "contextPrompt m a = contextPrompt m b \<Longrightarrow>
   getProductRecommendations w m a = getProductRecommendations w m b"
  by (simp add: getProductRecommendations_def)

lemma sublist_join: "x \<in> set xs \<Longrightarrow> sublist x (join sep xs)"
proof (induction sep xs rule: join.induct)
  case (1 sep)
  then show ?case by simp
next
  case (2 sep y)
  then show ?case by simp
next
  case (3 sep y z zs)
  show ?case
  proof (cases "x = y")
    case True
    then show ?thesis by simp
  next
    case False
    with 3 have "sublist x (join sep (z # zs))" by simp
    then obtain ps ss where "join sep (z # zs) = ps @ x @ ss"
      by (auto simp: sublist_def)
    then have "join sep (y # z # zs) = (y @ sep @ ps) @ x @ ss" by simp
    then show ?thesis unfolding sublist_def by blast
  qed
qed

lemma sublist_in_context:
  "sublist x b \<Longrightarrow> sublist x (a @ b @ c)"
proof -
  assume "sublist x b"
  then obtain ps ss where "b = ps @ x @ ss" by (auto simp: sublist_def)
  then have "a @ b @ c = (a @ ps) @ x @ (ss @ c)" by simp
  then show ?thesis unfolding sublist_def by blast
qed

lemma prompt_line:
  "e \<in> set (slice_last 5 (conversationHistory state)) \<Longrightarrow>
   sublist (role e @ '': '' @ content e) (contextPrompt m state)"
proof -
  assume "e \<in> set (slice_last 5 (conversationHistory state))"
  then have "role e @ '': '' @ content e \<in> set (history_lines state)"
    by (auto simp: history_lines_def)
  then have s: "sublist (role e @ '': '' @ content e) (join newline (history_lines state))"
    by (rule sublist_join)
  define a where "a = newline @ ''User message: '' @ m @ newline @ newline @
       ''User preferences:'' @ newline @
       join newline (map (\<lambda>(k, v). ''- '' @ k @ '': '' @ v) (preferences state)) @
       newline @ newline @ ''Conversation history:'' @ newline"
  have eq: "contextPrompt m state = a @ join newline (history_lines state) @ newline"
    by (simp add: contextPrompt_def a_def)
  show ?thesis unfolding eq by (rule sublist_in_context [OF s])
qed

lemma prompt_message: "sublist m (contextPrompt m state)"
proof -
  define c where "c = newline @ newline @
       ''User preferences:'' @ newline @
       join newline (map (\<lambda>(k, v). ''- '' @ k @ '': '' @ v) (preferences state)) @
       newline @ newline @ ''Conversation history:'' @ newline
      @ join newline (history_lines state) @ newline"
  have eq: "contextPrompt m state = (newline @ ''User message: '') @ m @ c"
    by (simp add: contextPrompt_def c_def)
  show ?thesis unfolding eq by (rule sublist_appendI)
qed

subsection \<open>The concrete worlds evaluated\<close>

lemma offline_classify: "classifyIntent offline_world m = Some fallback_intent"
  by (simp add: classifyIntent_def offline_world_def)

lemma silent_classify: "classifyIntent silent_world m = Some fallback_intent"
  by (simp add: classifyIntent_def silent_world_def offline_world_def)

lemma scripted_classify:
  "classifyIntent scripted_world m = Some \<lparr> intent = m, confidence = 1 \<rparr>"
  by (simp add: classifyIntent_def scripted_world_def)

lemma throwing_classify:
  "classifyIntent throwing_world m = Some \<lparr> intent = m, confidence = 1 \<rparr>"
  by (simp add: classifyIntent_def throwing_world_def scripted_world_def)

lemma null_classify: "classifyIntent null_world m = None"
  by (simp add: classifyIntent_def null_world_def scripted_world_def)

lemma scripted_timing: "env_OFFER_TIMING scripted_world = Some ''balanced''"
  by (simp add: scripted_world_def)

lemma scripted_handler:
  "call_handler scripted_world h m state = Inr \<lparr> h_response = ''ok'', h_actions = None \<rparr>"
  by (simp add: scripted_world_def)

lemma throwing_handler:
  "call_handler throwing_world h m state = Inl (HandlerError ''handler failed'')"
  by (simp add: throwing_world_def)

lemma silent_handler:
  "call_handler silent_world h m state = Inr \<lparr> h_response = [], h_actions = None \<rparr>"
  by (simp add: silent_world_def)

lemma offline_handler:
  "call_handler offline_world h m state =
     Inr \<lparr> h_response = ''How can I help?'', h_actions = None \<rparr>"
  by (simp add: offline_world_def)

lemma offline_timing: "env_OFFER_TIMING offline_world = None"
  by (simp add: offline_world_def)

lemma silent_timing: "env_OFFER_TIMING silent_world = None"
  by (simp add: silent_world_def offline_world_def)

lemma scripted_recommendations:
  "getProductRecommendations scripted_world m state = JArray [JString ''skateboard'']"
  by (simp add: getProductRecommendations_def scripted_world_def)

lemma offline_recommendations:
  "getProductRecommendations offline_world m state = JArray []"
  by (simp add: getProductRecommendations_def offline_world_def)

section \<open>The claims\<close>

subsection \<open>C1: the recommendation policy\<close>

text \<open>
  The claim as worded gives the threshold 5 to an unset timing. The code reads
  \<^verbatim>\<open>process.env.OFFER_TIMING || 'balanced'\<close>, so an unset timing is balanced: at three
  messages and an intent other than product_inquiry the code recommends, while the
  threshold of the wording would not.
\<close>

theorem shouldOfferRecommendations_unset_counterexample:
  "shouldOfferRecommendations None ''general_question'' ((default_state 0) \<lparr> messageCount := 3 \<rparr>)
   \<noteq> spec_shouldRecommend None ''general_question'' ((default_state 0) \<lparr> messageCount := 3 \<rparr>)"
  by (simp add: shouldOfferRecommendations_def spec_shouldRecommend_def spec_threshold_def default_state_def)

text \<open>
  C1 (amended). \<open>shouldOfferRecommendations\<close> is true whenever the intent is
  product_inquiry, for every state; otherwise it is true iff \<open>messageCount\<close> is at
  least the threshold of the timing: 2 for early, 3 for balanced and for an unset or
  empty timing, 5 for every other value. With timing early it is false at
  \<open>messageCount\<close> 1 (for an intent other than product_inquiry) and true at 2.
\<close>

theorem shouldOfferRecommendations_policy:
  "shouldOfferRecommendations timing i state =
     (i = ''product_inquiry'' \<or>
      messageCount state \<ge>
        (if timing = Some ''early'' then 2
         else if timing = Some ''balanced'' \<or> timing = None \<or> timing = Some [] then 3
         else 5))
   \<and> (i \<noteq> ''product_inquiry'' \<and> messageCount state = 1 \<longrightarrow>
        \<not> shouldOfferRecommendations (Some ''early'') i state)
   \<and> (messageCount state = 2 \<longrightarrow> shouldOfferRecommendations (Some ''early'') i state)"
  by (auto simp: shouldOfferRecommendations_def Let_def split: option.splits)

theorem shouldOfferRecommendations_policy_witness:
  "\<not> shouldOfferRecommendations (Some ''early'') ''greeting'' ((default_state 0) \<lparr> messageCount := 1 \<rparr>)
   \<and> shouldOfferRecommendations (Some ''early'') ''greeting'' ((default_state 0) \<lparr> messageCount := 2 \<rparr>)
   \<and> shouldOfferRecommendations None ''greeting'' ((default_state 0) \<lparr> messageCount := 3 \<rparr>)
   \<and> \<not> shouldOfferRecommendations (Some ''late'') ''greeting'' ((default_state 0) \<lparr> messageCount := 4 \<rparr>)"
  using shouldOfferRecommendations_policy [of "Some ''early''" "''greeting''" "(default_state 0) \<lparr> messageCount := 1 \<rparr>"]
    shouldOfferRecommendations_policy [of "Some ''early''" "''greeting''" "(default_state 0) \<lparr> messageCount := 2 \<rparr>"]
    shouldOfferRecommendations_policy [of None "''greeting''" "(default_state 0) \<lparr> messageCount := 3 \<rparr>"]
    shouldOfferRecommendations_policy [of "Some ''late''" "''greeting''" "(default_state 0) \<lparr> messageCount := 4 \<rparr>"]
  by (simp add: default_state_def)

subsection \<open>C2: the append guard of the state update\<close>

text \<open>
  The claim as worded skips the append only when the same pair is the last entry of
  the history, and has the same content appended again after other messages. The code
  tests \<^verbatim>\<open>conversationHistory.some(...)\<close> over the whole history: after the updates
  hi, bye, hi the history holds hi and bye only, where the guard of the wording would
  hold a third entry.
\<close>

theorem updateUserState_resend_counterexample:
  "map content (conversationHistory (snd (updateUserState
      (fst (updateUserState
         (fst (updateUserState Map.empty ''u'' (message_update ''greeting'' ''hi'' 1) 0)) ''u''
         (message_update ''general_question'' ''bye'' 2) 1)) ''u''
      (message_update ''greeting'' ''hi'' 3) 2))) = [''hi'', ''bye'']
   \<and> map content (spec_append ''hi'' 2 (conversationHistory (snd (updateUserState
         (fst (updateUserState Map.empty ''u'' (message_update ''greeting'' ''hi'' 1) 0)) ''u''
         (message_update ''general_question'' ''bye'' 2) 1)))) = [''hi'', ''bye'', ''hi'']"
  by (simp add: updateUserState_history updateUserState_fst getUserState_snd is_new_message_def
        message_update_sel default_state_def spec_append_def spec_trails_def)

text \<open>
  C2 (amended). The state update appends the inbound user message to
  \<open>conversationHistory\<close> exactly when the message is not empty and no entry anywhere
  in the history has role user and the same content; otherwise the history is left as
  it is. So a non-empty message that the history does not hold yet, submitted in two
  consecutive state updates, is stored exactly once, and the same content sent again
  after other messages is not appended again.
\<close>

theorem updateUserState_append_guard:
  "conversationHistory (snd (updateUserState S u (message_update i m n) now)) =
     (if m \<noteq> [] \<and>
         \<not> list_ex (\<lambda>e. role e = ''user'' \<and> content e = m)
              (conversationHistory (snd (getUserState S u now)))
      then conversationHistory (snd (getUserState S u now)) @
             [\<lparr> role = ''user'', content = m, timestamp = now \<rparr>]
      else conversationHistory (snd (getUserState S u now)))
   \<and> (m \<noteq> [] \<and> stored_copies m (snd (getUserState S u now)) = 0 \<longrightarrow>
        stored_copies m
          (snd (updateUserState (fst (updateUserState S u (message_update i m n) now)) u
                  (message_update i' m n') now')) = 1)"
proof -
  let ?st0 = "snd (getUserState S u now)"
  let ?st1 = "snd (updateUserState S u (message_update i m n) now)"
  let ?S1 = "fst (updateUserState S u (message_update i m n) now)"
  have h1: "conversationHistory ?st1 =
     (if m \<noteq> [] \<and> \<not> list_ex (\<lambda>e. role e = ''user'' \<and> content e = m) (conversationHistory ?st0)
      then conversationHistory ?st0 @ [\<lparr> role = ''user'', content = m, timestamp = now \<rparr>]
      else conversationHistory ?st0)"
    by (simp add: updateUserState_history is_new_message_def message_update_sel)
  have s1: "snd (getUserState ?S1 u now') = ?st1"
    by (simp add: updateUserState_fst getUserState_snd)
  have h2: "m \<noteq> [] \<Longrightarrow> stored_copies m ?st0 = 0 \<Longrightarrow>
     stored_copies m (snd (updateUserState ?S1 u (message_update i' m n') now')) = 1"
  proof -
    assume ne: "m \<noteq> []" and z: "stored_copies m ?st0 = 0"
    from z have nex: "\<not> list_ex (\<lambda>e. role e = ''user'' \<and> content e = m) (conversationHistory ?st0)"
      by (simp add: list_ex_stored_copies)
    with ne h1 have e1: "conversationHistory ?st1 =
        conversationHistory ?st0 @ [\<lparr> role = ''user'', content = m, timestamp = now \<rparr>]"
      by simp
    with z have c1: "stored_copies m ?st1 = 1"
      by (simp add: stored_copies_def)
    then have "list_ex (\<lambda>e. role e = ''user'' \<and> content e = m) (conversationHistory ?st1)"
      by (simp add: list_ex_stored_copies)
    then have "conversationHistory (snd (updateUserState ?S1 u (message_update i' m n') now')) =
        conversationHistory ?st1"
      by (simp add: updateUserState_history is_new_message_def message_update_sel s1)
    with c1 show ?thesis by (simp add: stored_copies_def)
  qed
  from h1 h2 show ?thesis by blast
qed

theorem updateUserState_append_guard_witness:
  "map content (conversationHistory (snd (updateUserState
      (fst (updateUserState Map.empty ''u'' (message_update ''greeting'' ''hi'' 1) 0)) ''u''
      (message_update ''greeting'' ''hi'' 2) 1))) = [''hi'']
   \<and> stored_copies ''hi'' (snd (updateUserState
      (fst (updateUserState Map.empty ''u'' (message_update ''greeting'' ''hi'' 1) 0)) ''u''
      (message_update ''greeting'' ''hi'' 2) 1)) = 1"
  using updateUserState_append_guard [of "Map.empty" "''u''" "''greeting''" "''hi''" 1 0 "''greeting''" 2 1]
    updateUserState_append_guard [of "fst (updateUserState Map.empty ''u'' (message_update ''greeting'' ''hi'' 1) 0)"
       "''u''" "''greeting''" "''hi''" 2 1 "''greeting''" 3 2]
  by (simp add: getUserState_snd updateUserState_fst default_state_def stored_copies_def)

subsection \<open>C3: stage derivation\<close>

text \<open>
  C3. Stage derivation depends on the state only through \<open>messageCount\<close> and
  \<open>lastIntent\<close> and is the first-match evaluation of the ordered rule list: at most 1
  message gives greeting; else checkout_help gives checkout; else product_inquiry or
  price_inquiry gives product_discovery; else objection gives objection_handling; else
  5 or more messages give engagement; otherwise information. In particular a count of
  at most 1 gives greeting whatever the last intent is.
\<close>

theorem determineConversationStage_first_match:
  "determineConversationStage state = spec_deriveStage (messageCount state) (lastIntent state)
   \<and> (messageCount state \<le> 1 \<longrightarrow> determineConversationStage state = ''greeting'')"
  by (simp add: determineConversationStage_def spec_deriveStage_def spec_stage_rules_def)

theorem determineConversationStage_first_match_witness:
  "determineConversationStage ((default_state 0) \<lparr> messageCount := 1, lastIntent := Some ''checkout_help'' \<rparr>)
     = ''greeting''
   \<and> determineConversationStage ((default_state 0) \<lparr> messageCount := 6, lastIntent := Some ''objection'' \<rparr>)
     = ''objection_handling''
   \<and> spec_deriveStage 6 (Some ''objection'') = ''objection_handling''"
  using determineConversationStage_first_match
          [of "(default_state 0) \<lparr> messageCount := 1, lastIntent := Some ''checkout_help'' \<rparr>"]
        determineConversationStage_first_match
          [of "(default_state 0) \<lparr> messageCount := 6, lastIntent := Some ''objection'' \<rparr>"]
  by (simp add: default_state_def spec_deriveStage_def spec_stage_rules_def)

subsection \<open>C4: classification never raises\<close>

text \<open>
  The claim as worded has \<open>processMessage\<close> return a non-empty response whenever the
  classifier's call fails. The response is the handler's \<^verbatim>\<open>result.response\<close> as it
  is: with the classifier down and a general-question handler that answers the empty
  string, the response is empty.
\<close>

theorem classifier_down_empty_response_counterexample:
  "chat_completions_create silent_world
     [(''system'', intentPrompt silent_world), (''user'', ''hello'')] = Inl TransportError
   \<and> snd (processMessage silent_world Map.empty ''u'' ''hello'' 0)
       = Inr \<lparr> response = [], actions = [] \<rparr>"
  by (simp add: processMessage_as_resume processMessage_resume_snd processMessage_body_snd
        silent_classify fallback_intent_def silent_handler silent_timing
        shouldOfferRecommendations_def getUserState_snd default_state_def)
     (simp add: silent_world_def offline_world_def)

text \<open>
  C4 (amended). When the completion call raises, or its content does not parse,
  \<open>classifyIntent\<close> returns the fallback
  \<^verbatim>\<open>{intent: 'general_question', confidence: 0.5}\<close> and raises nothing. Then
  \<open>processMessage\<close> records \<open>lastIntent\<close> general_question in the user's state and
  returns a response: the reply of the general-question handler as it is, which is
  empty when that handler answers the empty string, or the apology, which is not
  empty, when that handler raises. This holds for a call on its own and for a call
  resumed with any state object \<open>st\<close> it read earlier.
\<close>

theorem classifyIntent_never_raises:
  assumes "chat_completions_create w [(''system'', intentPrompt w), (''user'', m)] = Inl e
           \<or> (\<exists>c. chat_completions_create w [(''system'', intentPrompt w), (''user'', m)]
                     = Inr (Some c)
                   \<and> JSON_parse_intent w c = Inl e)"
  shows "classifyIntent w m = Some \<lparr> intent = ''general_question'', confidence = 1 / 2 \<rparr>
     \<and> (\<exists>st'. fst (processMessage w S u m now) u = Some st'
               \<and> lastIntent st' = Some ''general_question'')
     \<and> (\<exists>st'. fst (processMessage_resume w S u m st now) u = Some st'
               \<and> lastIntent st' = Some ''general_question'')
     \<and> (\<forall>res. call_handler w GeneralQuestionHandler m st = Inr res \<longrightarrow>
           (\<exists>a. snd (processMessage_resume w S u m st now)
                  = Inr \<lparr> response = h_response res, actions = a \<rparr>))
     \<and> (\<forall>e'. call_handler w GeneralQuestionHandler m st = Inl e' \<longrightarrow>
           snd (processMessage_resume w S u m st now) = Inr apology)
     \<and> (\<forall>res. call_handler w GeneralQuestionHandler m (snd (getUserState S u now)) = Inr res \<longrightarrow>
           (\<exists>a. snd (processMessage w S u m now)
                  = Inr \<lparr> response = h_response res, actions = a \<rparr>))
     \<and> (\<forall>e'. call_handler w GeneralQuestionHandler m (snd (getUserState S u now)) = Inl e' \<longrightarrow>
           snd (processMessage w S u m now) = Inr apology)
     \<and> response apology \<noteq> []"
proof -
  from assms have c: "classifyIntent w m = Some fallback_intent"
    by (rule classifyIntent_fallback)
  then have a: "classifyIntent w m = Some \<lparr> intent = ''general_question'', confidence = 1 / 2 \<rparr>"
    by (simp add: fallback_intent_def)
  have b: "\<exists>st'. fst (processMessage w S u m now) u = Some st'
               \<and> lastIntent st' = Some ''general_question''"
    by (simp add: processMessage_fst a updateUserState_lastIntent)
  have b': "\<exists>st'. fst (processMessage_resume w S u m st now) u = Some st'
               \<and> lastIntent st' = Some ''general_question''"
    by (simp add: processMessage_resume_fst processMessage_body_fst a updateUserState_lastIntent)
  have d: "\<forall>res. call_handler w GeneralQuestionHandler m st' = Inr res \<longrightarrow>
           (\<exists>a. snd (processMessage_resume w S' u m st' now)
                  = Inr \<lparr> response = h_response res, actions = a \<rparr>)" for S' st'
    by (simp add: processMessage_resume_snd processMessage_body_snd a
          getHandlerForIntent_general)
  have f: "\<forall>e'. call_handler w GeneralQuestionHandler m st' = Inl e' \<longrightarrow>
           snd (processMessage_resume w S' u m st' now) = Inr apology" for S' st'
    by (simp add: processMessage_resume_snd processMessage_body_snd a
          getHandlerForIntent_general)
  from a b b' d [of st S] f [of st S]
    d [of "snd (getUserState S u now)" "fst (getUserState S u now)"]
    f [of "snd (getUserState S u now)" "fst (getUserState S u now)"]
    apology_response_nonempty
  show ?thesis
    by (simp only: processMessage_as_resume) blast
qed

theorem classifyIntent_never_raises_witness:
  "classifyIntent offline_world ''hello'' = Some \<lparr> intent = ''general_question'', confidence = 1 / 2 \<rparr>
   \<and> (\<exists>st'. fst (processMessage offline_world Map.empty ''u'' ''hello'' 0) ''u'' = Some st'
          \<and> lastIntent st' = Some ''general_question'')
   \<and> (\<exists>a. snd (processMessage offline_world Map.empty ''u'' ''hello'' 0)
            = Inr \<lparr> response = ''How can I help?'', actions = a \<rparr>)"
proof -
  have f: "chat_completions_create offline_world
             [(''system'', intentPrompt offline_world), (''user'', ''hello'')] = Inl TransportError
           \<or> (\<exists>c. chat_completions_create offline_world
                    [(''system'', intentPrompt offline_world), (''user'', ''hello'')] = Inr (Some c)
                 \<and> JSON_parse_intent offline_world c = Inl TransportError)"
    by (simp add: offline_world_def)
  from classifyIntent_never_raises [OF f, of Map.empty "''u''" 0 "default_state 0"]
  show ?thesis by (simp add: offline_handler)
qed

subsection \<open>C5: the catch of the orchestrator\<close>

text \<open>
  C5. \<open>processMessage\<close> never rejects: whatever the world does, the caller gets a
  reply. The \<^verbatim>\<open>try\<close> block is left by a raise in exactly two ways: the classifier's
  result is \<^verbatim>\<open>null\<close>, on which the destructuring raises before the state is updated,
  or the handler call raises after it. In both the reply is the apology, whose action
  list is empty. A failing completion call, a parse error and a failing
  recommendation raise nothing here: they are absorbed where they happen. All of
  this holds for a call on its own and for a call resumed with any state object
  \<open>st\<close> it read earlier.
\<close>

theorem processMessage_catches:
  "(\<exists>r. snd (processMessage w S u m now) = Inr r)
   \<and> (\<exists>r. snd (processMessage_resume w S u m st now) = Inr r)
   \<and> (classifyIntent w m = None \<longrightarrow>
        processMessage_resume w S u m st now = (S, Inr apology)
        \<and> processMessage w S u m now = (fst (getUserState S u now), Inr apology))
   \<and> (\<forall>r e. classifyIntent w m = Some r
          \<and> call_handler w (getHandlerForIntent (intent r)) m st = Inl e \<longrightarrow>
        snd (processMessage_resume w S u m st now) = Inr apology)
   \<and> (\<forall>r e. classifyIntent w m = Some r
          \<and> call_handler w (getHandlerForIntent (intent r)) m (snd (getUserState S u now)) = Inl e \<longrightarrow>
        snd (processMessage w S u m now) = Inr apology)
   \<and> ((\<exists>e. snd (processMessage_body w S u m st now) = Inl e) =
        (classifyIntent w m = None
         \<or> (\<exists>r e. classifyIntent w m = Some r
               \<and> call_handler w (getHandlerForIntent (intent r)) m st = Inl e)))
   \<and> actions apology = []
   \<and> response apology =
        ''I'' @ [CHR 0x27] @ ''m sorry, I'' @ [CHR 0x27] @
        ''m having trouble processing your request right now. Can you try again?''"
proof -
  have never: "\<exists>r. snd (processMessage_resume w S' u m st' now) = Inr r" for S' st'
    by (simp add: processMessage_resume_snd split: sum.splits)
  have null: "classifyIntent w m = None \<longrightarrow>
        processMessage_resume w S' u m st' now = (S', Inr apology)" for S' st'
    by (simp add: processMessage_resume_def processMessage_body_def processMessage_catch_def)
  have handler: "\<forall>r e. classifyIntent w m = Some r
          \<and> call_handler w (getHandlerForIntent (intent r)) m st' = Inl e \<longrightarrow>
        snd (processMessage_resume w S' u m st' now) = Inr apology" for S' st'
    by (auto simp: processMessage_resume_snd processMessage_body_snd)
  have raises: "(\<exists>e. snd (processMessage_body w S u m st now) = Inl e) =
        (classifyIntent w m = None
         \<or> (\<exists>r e. classifyIntent w m = Some r
               \<and> call_handler w (getHandlerForIntent (intent r)) m st = Inl e))"
    by (auto simp: processMessage_body_snd split: option.splits sum.splits)
  have ap: "actions apology = []"
    "response apology =
        ''I'' @ [CHR 0x27] @ ''m sorry, I'' @ [CHR 0x27] @
        ''m having trouble processing your request right now. Can you try again?''"
    by (simp_all add: apology_def)
  from never [of S st] never [of "fst (getUserState S u now)" "snd (getUserState S u now)"]
    null [of S st] null [of "fst (getUserState S u now)" "snd (getUserState S u now)"]
    handler [of st S] handler [of "snd (getUserState S u now)" "fst (getUserState S u now)"]
    raises ap
  show ?thesis
    by (simp only: processMessage_as_resume) blast
qed

theorem processMessage_catches_witness:
  "processMessage null_world Map.empty ''u'' ''hello'' 0
     = ([''u'' \<mapsto> default_state 0], Inr apology)
   \<and> snd (processMessage throwing_world Map.empty ''u'' ''hello'' 0) = Inr apology
   \<and> snd (processMessage scripted_world Map.empty ''u'' ''hello'' 0)
       = Inr \<lparr> response = ''ok'', actions = [] \<rparr>"
proof -
  have s: "snd (processMessage scripted_world Map.empty ''u'' ''hello'' 0)
       = Inr \<lparr> response = ''ok'', actions = [] \<rparr>"
    by (simp add: processMessage_as_resume processMessage_resume_snd processMessage_body_snd
          scripted_classify scripted_handler scripted_timing shouldOfferRecommendations_def
          getUserState_snd default_state_def)
  have t: "call_handler throwing_world (getHandlerForIntent ''hello'') ''hello''
             (snd (getUserState Map.empty ''u'' 0)) = Inl (HandlerError ''handler failed'')"
    by (simp add: throwing_handler)
  from s t
    processMessage_catches [of null_world Map.empty "''u''" "''hello''" 0 "default_state 0"]
    processMessage_catches [of throwing_world Map.empty "''u''" "''hello''" 0 "default_state 0"]
  show ?thesis
    by (simp add: null_classify throwing_classify getUserState_def)
qed

subsection \<open>C6: the handler and the policy see the state as loaded\<close>

text \<open>
  The claim as worded has the \<open>n\<close>-th inbound message of a user meet
  \<open>messageCount = n - 1\<close>. A message whose classification comes back as \<^verbatim>\<open>null\<close>
  raises before \<^verbatim>\<open>updateUserState\<close> and is not counted: after one such message the
  second message of the user loads \<open>messageCount\<close> 0, not 1.
\<close>

theorem nth_message_count_counterexample:
  "inbound_count ''u'' [ProcessMessage null_world ''u'' ''hi'' 0] = 1
   \<and> messageCount (snd (getUserState
        (run Map.empty [ProcessMessage null_world ''u'' ''hi'' 0]) ''u'' 1)) = 0"
  by (simp add: inbound_count_def run_def processMessage_fst null_classify
        getUserState_snd getUserState_fst default_state_def)

text \<open>
  C6 (amended). In \<open>processMessage\<close> both the intent handler and the recommendation
  policy receive the state object \<open>st\<close> as loaded before the update; the update
  produces a new state object, whose \<open>messageCount\<close> is that of \<open>st\<close> plus one and
  whose \<open>lastIntent\<close> is the new intent, and leaves \<open>st\<close> as it was. So the policy
  compares the loaded \<open>messageCount\<close> with the threshold, and the handler sees the
  loaded count and the previous \<open>lastIntent\<close>. When the calls run one after the
  other, the loaded \<open>messageCount\<close> is the number of the user's earlier messages whose
  classification returned an object: \<open>n - 1\<close> for the \<open>n\<close>-th message when all of them
  did.
\<close>

theorem processMessage_uses_loaded_state:
  assumes "classifyIntent w m = Some r"
  shows "(\<forall>res. call_handler w (getHandlerForIntent (intent r)) m st = Inr res \<longrightarrow>
           snd (processMessage_resume w S u m st now) =
             Inr \<lparr> response = h_response res,
                   actions = (case h_actions res of None \<Rightarrow> [] | Some a \<Rightarrow> a) @
                     (if shouldOfferRecommendations (env_OFFER_TIMING w) (intent r) st
                         \<and> has_items w (getProductRecommendations w m st)
                      then [ProductRecommendations (getProductRecommendations w m st)]
                      else []) \<rparr>)
     \<and> shouldOfferRecommendations (env_OFFER_TIMING w) (intent r) st =
         (intent r = ''product_inquiry'' \<or>
          messageCount st \<ge>
            (if env_OFFER_TIMING w = Some ''early'' then 2
             else if env_OFFER_TIMING w = Some ''balanced'' \<or> env_OFFER_TIMING w = None
                     \<or> env_OFFER_TIMING w = Some [] then 3
             else 5))
     \<and> (\<exists>st'. fst (processMessage_resume w S u m st now) u = Some st'
            \<and> messageCount st' = messageCount st + 1
            \<and> lastIntent st' = Some (intent r))
     \<and> processMessage w S u m now =
         processMessage_resume w (fst (getUserState S u now)) u m (snd (getUserState S u now)) now
     \<and> (\<forall>st0. S u = Some st0 \<longrightarrow> snd (getUserState S u now) = st0)
     \<and> messageCount (snd (getUserState (run Map.empty ops) u now)) = int (classified_count u ops)
     \<and> ((\<forall>op \<in> set ops. is_inbound u op \<longrightarrow> is_classified u op) \<longrightarrow>
         messageCount (snd (getUserState (run Map.empty ops) u now)) = int (inbound_count u ops))"
proof -
  have rp: "\<forall>res. call_handler w (getHandlerForIntent (intent r)) m st = Inr res \<longrightarrow>
           snd (processMessage_resume w S u m st now) =
             Inr \<lparr> response = h_response res,
                   actions = (case h_actions res of None \<Rightarrow> [] | Some a \<Rightarrow> a) @
                     (if shouldOfferRecommendations (env_OFFER_TIMING w) (intent r) st
                         \<and> has_items w (getProductRecommendations w m st)
                      then [ProductRecommendations (getProductRecommendations w m st)]
                      else []) \<rparr>"
    using assms by (simp add: processMessage_resume_snd processMessage_body_snd)
  have pol: "shouldOfferRecommendations (env_OFFER_TIMING w) (intent r) st =
         (intent r = ''product_inquiry'' \<or>
          messageCount st \<ge>
            (if env_OFFER_TIMING w = Some ''early'' then 2
             else if env_OFFER_TIMING w = Some ''balanced'' \<or> env_OFFER_TIMING w = None
                     \<or> env_OFFER_TIMING w = Some [] then 3
             else 5))"
    by (simp only: shouldOfferRecommendations_threshold)
  have upd: "\<exists>st'. fst (processMessage_resume w S u m st now) u = Some st'
            \<and> messageCount st' = messageCount st + 1
            \<and> lastIntent st' = Some (intent r)"
    using assms
    by (simp add: processMessage_resume_fst processMessage_body_fst
          updateUserState_messageCount updateUserState_lastIntent)
  have ld: "\<forall>st0. S u = Some st0 \<longrightarrow> snd (getUserState S u now) = st0"
    by (simp add: getUserState_snd)
  have mc: "messageCount (snd (getUserState (run Map.empty ops) u now)) = int (classified_count u ops)"
    using run_messageCount [of Map.empty ops u now]
    by (simp add: getUserState_snd default_state_def)
  have all: "messageCount (snd (getUserState (run Map.empty ops) u now)) = int (inbound_count u ops)"
    if "\<forall>op \<in> set ops. is_inbound u op \<longrightarrow> is_classified u op"
  proof -
    have "is_classified u op \<Longrightarrow> is_inbound u op" for op
      by (cases op) auto
    with that have "filter (is_classified u) ops = filter (is_inbound u) ops"
      by (intro filter_cong) auto
    with mc show ?thesis by (simp add: classified_count_def inbound_count_def)
  qed
  from rp pol upd ld mc all processMessage_as_resume [of w S u m now]
  show ?thesis by blast
qed

theorem processMessage_uses_loaded_state_witness:
  "int (inbound_count ''u''
          [ProcessMessage scripted_world ''u'' ''greeting'' 0,
           AddBotResponse ''u'' ''ok'' 1,
           ProcessMessage scripted_world ''u'' ''complaint'' 2]) = 2
   \<and> messageCount (snd (getUserState
      (run Map.empty [ProcessMessage scripted_world ''u'' ''greeting'' 0,
                      AddBotResponse ''u'' ''ok'' 1,
                      ProcessMessage scripted_world ''u'' ''complaint'' 2]) ''u'' 3)) = 2
   \<and> \<not> shouldOfferRecommendations (Some ''balanced'') ''general_question''
        (snd (getUserState
          (run Map.empty [ProcessMessage scripted_world ''u'' ''greeting'' 0,
                      AddBotResponse ''u'' ''ok'' 1,
                      ProcessMessage scripted_world ''u'' ''complaint'' 2]) ''u'' 3))
   \<and> snd (processMessage scripted_world
        (run Map.empty [ProcessMessage scripted_world ''u'' ''greeting'' 0,
                      AddBotResponse ''u'' ''ok'' 1,
                      ProcessMessage scripted_world ''u'' ''complaint'' 2])
        ''u'' ''general_question'' 3) = Inr \<lparr> response = ''ok'', actions = [] \<rparr>
   \<and> (\<exists>st'. fst (processMessage scripted_world
        (run Map.empty [ProcessMessage scripted_world ''u'' ''greeting'' 0,
                      AddBotResponse ''u'' ''ok'' 1,
                      ProcessMessage scripted_world ''u'' ''complaint'' 2])
        ''u'' ''general_question'' 3) ''u'' = Some st'
        \<and> messageCount st' = 3 \<and> lastIntent st' = Some ''general_question'')"
proof -
  let ?ops = "[ProcessMessage scripted_world ''u'' ''greeting'' 0,
               AddBotResponse ''u'' ''ok'' 1,
               ProcessMessage scripted_world ''u'' ''complaint'' 2]"
  let ?S = "run Map.empty ?ops"
  let ?S1 = "fst (getUserState ?S ''u'' 3)"
  let ?st = "snd (getUserState ?S ''u'' 3)"
  let ?r = "\<lparr> intent = ''general_question'', confidence = 1 \<rparr>"
  have c: "classifyIntent scripted_world ''general_question'' = Some ?r"
    by (rule scripted_classify)
  note t1 = processMessage_uses_loaded_state [OF c, of ?st ?S1 "''u''" 3 ?ops]
  note t0 = processMessage_uses_loaded_state [OF c, of ?st ?S "''u''" 3 ?ops]
  from t1 have "messageCount ?st = int (classified_count ''u'' ?ops)" by blast
  then have mc: "messageCount ?st = 2"
    by (simp add: classified_count_def scripted_classify)
  then have pol: "\<not> shouldOfferRecommendations (Some ''balanced'') ''general_question'' ?st"
    by (simp add: shouldOfferRecommendations_def)
  from t0 have pm: "processMessage scripted_world ?S ''u'' ''general_question'' 3 =
      processMessage_resume scripted_world ?S1 ''u'' ''general_question'' ?st 3"
    by blast
  have h: "call_handler scripted_world (getHandlerForIntent (intent ?r)) ''general_question'' ?st
      = Inr \<lparr> h_response = ''ok'', h_actions = None \<rparr>"
    by (rule scripted_handler)
  from t1 h have "snd (processMessage_resume scripted_world ?S1 ''u'' ''general_question'' ?st 3) =
      Inr \<lparr> response = h_response \<lparr> h_response = ''ok'', h_actions = None \<rparr>,
            actions = (case h_actions \<lparr> h_response = ''ok'', h_actions = None \<rparr> of
                         None \<Rightarrow> [] | Some a \<Rightarrow> a) @
              (if shouldOfferRecommendations (env_OFFER_TIMING scripted_world) (intent ?r) ?st
                  \<and> has_items scripted_world
                       (getProductRecommendations scripted_world ''general_question'' ?st)
               then [ProductRecommendations
                       (getProductRecommendations scripted_world ''general_question'' ?st)]
               else []) \<rparr>"
    by blast
  with pol have rp: "snd (processMessage_resume scripted_world ?S1 ''u'' ''general_question'' ?st 3) =
      Inr \<lparr> response = ''ok'', actions = [] \<rparr>"
    by (simp add: scripted_timing)
  from t1 obtain st' where
    "fst (processMessage_resume scripted_world ?S1 ''u'' ''general_question'' ?st 3) ''u'' = Some st'"
    "messageCount st' = messageCount ?st + 1" "lastIntent st' = Some (intent ?r)"
    by blast
  with mc have ex: "\<exists>st'. fst (processMessage_resume scripted_world ?S1 ''u'' ''general_question'' ?st 3)
        ''u'' = Some st' \<and> messageCount st' = 3 \<and> lastIntent st' = Some ''general_question''"
    by simp
  have a: "\<forall>op \<in> set ?ops. is_inbound ''u'' op \<longrightarrow> is_classified ''u'' op"
    by (simp add: scripted_classify)
  with t1 have "messageCount ?st = int (inbound_count ''u'' ?ops)" by blast
  with mc have ib: "int (inbound_count ''u'' ?ops) = 2" by simp
  from ib mc pol rp ex show ?thesis
    unfolding pm by blast
qed

subsection \<open>C7: the recommendation generator\<close>

text \<open>
  The prompt carries the message and, from the history, the lines of the last five
  entries and no others: it is the text below, with the history cut to its last five
  entries; each of those entries' lines stands in it; and entries older than the last
  five change neither the prompt nor the result.
\<close>

theorem contextPrompt_last_five:
  "contextPrompt m state =
     [CHR 0x0A] @ ''User message: '' @ m @ [CHR 0x0A, CHR 0x0A] @
     ''User preferences:'' @ [CHR 0x0A] @
     join [CHR 0x0A] (map (\<lambda>(k, v). ''- '' @ k @ '': '' @ v) (preferences state)) @
     [CHR 0x0A, CHR 0x0A] @ ''Conversation history:'' @ [CHR 0x0A] @
     join [CHR 0x0A]
       (map (\<lambda>e. role e @ '': '' @ content e)
          (drop (length (conversationHistory state) - 5) (conversationHistory state))) @
     [CHR 0x0A]
   \<and> length (drop (length (conversationHistory state) - 5) (conversationHistory state)) \<le> 5
   \<and> sublist m (contextPrompt m state)
   \<and> (\<forall>e \<in> set (drop (length (conversationHistory state) - 5) (conversationHistory state)).
        sublist (role e @ '': '' @ content e) (contextPrompt m state))
   \<and> (5 \<le> length (conversationHistory state) \<longrightarrow>
        contextPrompt m (state \<lparr> conversationHistory := older @ conversationHistory state \<rparr>)
          = contextPrompt m state
        \<and> getProductRecommendations w m
            (state \<lparr> conversationHistory := older @ conversationHistory state \<rparr>)
          = getProductRecommendations w m state)"
proof -
  have a: "contextPrompt m state =
     [CHR 0x0A] @ ''User message: '' @ m @ [CHR 0x0A, CHR 0x0A] @
     ''User preferences:'' @ [CHR 0x0A] @
     join [CHR 0x0A] (map (\<lambda>(k, v). ''- '' @ k @ '': '' @ v) (preferences state)) @
     [CHR 0x0A, CHR 0x0A] @ ''Conversation history:'' @ [CHR 0x0A] @
     join [CHR 0x0A]
       (map (\<lambda>e. role e @ '': '' @ content e)
          (drop (length (conversationHistory state) - 5) (conversationHistory state))) @
     [CHR 0x0A]"
    by (simp add: contextPrompt_def history_lines_def slice_last_def newline_def)
  have b: "length (drop (length (conversationHistory state) - 5) (conversationHistory state)) \<le> 5"
    by simp
  have c: "sublist m (contextPrompt m state)"
    by (rule prompt_message)
  have d: "\<forall>e \<in> set (drop (length (conversationHistory state) - 5) (conversationHistory state)).
        sublist (role e @ '': '' @ content e) (contextPrompt m state)"
    using prompt_line [of _ state m] by (simp add: slice_last_def)
  have e: "contextPrompt m (state \<lparr> conversationHistory := older @ conversationHistory state \<rparr>)
          = contextPrompt m state" if "5 \<le> length (conversationHistory state)"
    using that by (intro contextPrompt_window) (simp_all add: history_lines_def slice_last_append)
  have f: "getProductRecommendations w m
            (state \<lparr> conversationHistory := older @ conversationHistory state \<rparr>)
          = getProductRecommendations w m state" if "5 \<le> length (conversationHistory state)"
    using e [OF that] by (rule getProductRecommendations_prompt)
  from a b c d e f show ?thesis by blast
qed

theorem contextPrompt_last_five_witness:
  "map (\<lambda>e. role e @ '': '' @ content e)
     (drop (length (conversationHistory six_entry_state) - 5) (conversationHistory six_entry_state))
     = [''assistant: two'', ''user: three'', ''assistant: four'', ''user: five'', ''assistant: six'']
   \<and> sublist ''assistant: two'' (contextPrompt ''board?'' six_entry_state)
   \<and> sublist ''assistant: six'' (contextPrompt ''board?'' six_entry_state)
   \<and> contextPrompt ''board?''
        (six_entry_state \<lparr> conversationHistory :=
           [\<lparr> role = ''user'', content = ''zero'', timestamp = 0 \<rparr>] @
           conversationHistory six_entry_state \<rparr>)
       = contextPrompt ''board?'' six_entry_state"
proof -
  have l: "5 \<le> length (conversationHistory six_entry_state)"
    by (simp add: six_entry_state_def)
  have h: "drop (length (conversationHistory six_entry_state) - 5)
             (conversationHistory six_entry_state) =
           [ \<lparr> role = ''assistant'', content = ''two'', timestamp = 2 \<rparr>,
             \<lparr> role = ''user'', content = ''three'', timestamp = 3 \<rparr>,
             \<lparr> role = ''assistant'', content = ''four'', timestamp = 4 \<rparr>,
             \<lparr> role = ''user'', content = ''five'', timestamp = 5 \<rparr>,
             \<lparr> role = ''assistant'', content = ''six'', timestamp = 6 \<rparr> ]"
    by (simp add: six_entry_state_def)
  note t = contextPrompt_last_five
      [of "''board?''" six_entry_state "[\<lparr> role = ''user'', content = ''zero'', timestamp = 0 \<rparr>]"
          scripted_world]
  note lines = t [THEN conjunct2, THEN conjunct2, THEN conjunct2, THEN conjunct1, unfolded h]
  note window = t [THEN conjunct2, THEN conjunct2, THEN conjunct2, THEN conjunct2]
  from lines have s2: "sublist ''assistant: two'' (contextPrompt ''board?'' six_entry_state)"
    by simp
  from lines have s6: "sublist ''assistant: six'' (contextPrompt ''board?'' six_entry_state)"
    by simp
  from window l have w: "contextPrompt ''board?''
        (six_entry_state \<lparr> conversationHistory :=
           [\<lparr> role = ''user'', content = ''zero'', timestamp = 0 \<rparr>] @
           conversationHistory six_entry_state \<rparr>)
       = contextPrompt ''board?'' six_entry_state"
    by (rule impE) (rule conjunct1)
  have m: "map (\<lambda>e. role e @ '': '' @ content e)
     (drop (length (conversationHistory six_entry_state) - 5) (conversationHistory six_entry_state))
     = [''assistant: two'', ''user: three'', ''assistant: four'', ''user: five'', ''assistant: six'']"
    unfolding h by simp
  from m s2 s6 w show ?thesis by (intro conjI)
qed

text \<open>
  An array in the parsed answer is returned as it is; a missing or falsy
  \<^verbatim>\<open>recommendations\<close>, an answer that is \<^verbatim>\<open>null\<close> or does not parse, and a service
  call that raises all give the empty array. Nothing is raised to the caller: the
  result is a value in every case.
\<close>

theorem getProductRecommendations_fail_open:
  "(\<forall>t kvs xs. chat_completions_create w
          [(''system'', recommendationPrompt w), (''user'', contextPrompt m state)] = Inr (Some t)
        \<and> JSON_parse w t = Inr (JObject kvs) \<and> map_of kvs ''recommendations'' = Some (JArray xs)
        \<longrightarrow> getProductRecommendations w m state = JArray xs)
   \<and> (\<forall>t kvs v. chat_completions_create w
          [(''system'', recommendationPrompt w), (''user'', contextPrompt m state)] = Inr (Some t)
        \<and> JSON_parse w t = Inr (JObject kvs)
        \<and> (map_of kvs ''recommendations'' = None
            \<or> map_of kvs ''recommendations'' = Some v \<and> \<not> truthy v)
        \<longrightarrow> getProductRecommendations w m state = JArray [])
   \<and> (\<forall>t e. chat_completions_create w
          [(''system'', recommendationPrompt w), (''user'', contextPrompt m state)] = Inr (Some t)
        \<and> (JSON_parse w t = Inl e \<or> JSON_parse w t = Inr JNull)
        \<longrightarrow> getProductRecommendations w m state = JArray [])
   \<and> (chat_completions_create w
          [(''system'', recommendationPrompt w), (''user'', contextPrompt m state)] = Inr None
        \<longrightarrow> getProductRecommendations w m state = JArray [])
   \<and> (\<forall>e. chat_completions_create w
          [(''system'', recommendationPrompt w), (''user'', contextPrompt m state)] = Inl e
        \<longrightarrow> getProductRecommendations w m state = JArray [])"
  by (auto simp: getProductRecommendations_def)

theorem getProductRecommendations_fail_open_witness:
  "getProductRecommendations scripted_world ''board?'' six_entry_state = JArray [JString ''skateboard'']
   \<and> getProductRecommendations offline_world ''board?'' six_entry_state = JArray []"
proof -
  have s: "chat_completions_create scripted_world
          [(''system'', recommendationPrompt scripted_world),
           (''user'', contextPrompt ''board?'' six_entry_state)]
        = Inr (Some (contextPrompt ''board?'' six_entry_state))
      \<and> JSON_parse scripted_world (contextPrompt ''board?'' six_entry_state)
        = Inr (JObject [(''recommendations'', JArray [JString ''skateboard''])])
      \<and> map_of [(''recommendations'', JArray [JString ''skateboard''])] ''recommendations''
        = Some (JArray [JString ''skateboard''])"
    by (simp add: scripted_world_def)
  have f: "chat_completions_create offline_world
          [(''system'', recommendationPrompt offline_world),
           (''user'', contextPrompt ''board?'' six_entry_state)] = Inl TransportError"
    by (simp add: offline_world_def)
  from s f
    getProductRecommendations_fail_open [of scripted_world "''board?''" six_entry_state]
    getProductRecommendations_fail_open [of offline_world "''board?''" six_entry_state]
  show ?thesis by blast
qed

text \<open>
  C7. The claim has \<open>recommend\<close> return the recommendations array or an empty list,
  and the function's own documentation promises an array. For an answer whose
  \<^verbatim>\<open>recommendations\<close> is a sentence, \<^verbatim>\<open>result.recommendations || []\<close> returns the
  sentence: a truthy value that is neither the array nor the empty list.
\<close>

theorem getProductRecommendations_non_array:
  "getProductRecommendations prose_world m state = JString ''none in stock''
   \<and> (\<forall>xs. getProductRecommendations prose_world m state \<noteq> JArray xs)"
  by (simp add: getProductRecommendations_def prose_world_def scripted_world_def)

theorem getProductRecommendations_non_array_witness:
  "getProductRecommendations prose_world ''board?'' six_entry_state = JString ''none in stock''
   \<and> getProductRecommendations prose_world ''board?'' six_entry_state \<noteq> JArray []"
  using getProductRecommendations_non_array [of "''board?''" six_entry_state]
  by simp

subsection \<open>C8: the dispatch table\<close>

text \<open>
  Each of the nine categories maps to its own handler, and so does every label that
  is neither a category nor a property name of \<^verbatim>\<open>Object.prototype\<close>.
\<close>

lemma getHandlerForIntent_categories:
  "getHandlerForIntent ''greeting'' = WelcomeHandler"
  "getHandlerForIntent ''product_inquiry'' = ProductInquiryHandler"
  "getHandlerForIntent ''price_inquiry'' = PriceInquiryHandler"
  "getHandlerForIntent ''shipping_inquiry'' = ShippingInquiryHandler"
  "getHandlerForIntent ''return_policy'' = ReturnPolicyHandler"
  "getHandlerForIntent ''checkout_help'' = CheckoutHandler"
  "getHandlerForIntent ''objection'' = ObjectionHandler"
  "getHandlerForIntent ''complaint'' = ComplaintHandler"
  "getHandlerForIntent ''general_question'' = GeneralQuestionHandler"
  by (simp_all add: getHandlerForIntent_def intentHandlers_get_def intentHandlers_def object_prototype_keys_def)

lemma getHandlerForIntent_unmapped:
  "i \<notin> set (map fst intentHandlers) \<Longrightarrow> i \<notin> set object_prototype_keys \<Longrightarrow>
   getHandlerForIntent i = GeneralQuestionHandler"
  by (simp add: getHandlerForIntent_def intentHandlers_get_def map_of_eq_None_iff[THEN iffD2] intentHandlers_def split: option.splits)

text \<open>
  C8. The claim sends every label outside the nine categories to the general-question
  handler. For the label \<^verbatim>\<open>constructor\<close> the read \<^verbatim>\<open>intentHandlers[intent]\<close> finds the
  member that every object inherits, which is truthy, so \<open>getHandlerForIntent\<close> returns
  that member and not the general-question handler.
\<close>

theorem getHandlerForIntent_inherited_key: "getHandlerForIntent ''constructor'' = ObjectPrototypeMember ''constructor''
  \<and> getHandlerForIntent ''constructor'' \<noteq> GeneralQuestionHandler"
  by (simp add: getHandlerForIntent_def intentHandlers_get_def intentHandlers_def object_prototype_keys_def)

subsection \<open>C9: invariants of the reachable states\<close>




subsection \<open>C10: message count against stored user entries\<close>

text \<open>
  The claim as worded bounds the user entries by \<open>messageCount\<close> in every reachable
  state, and makes the bound strict at every repeated message. Two calls received
  together and then resumed leave \<open>messageCount\<close> 1 beside two user entries, since each
  writes \<open>0 + 1\<close> and each appends to the history as it is by then. And a repeated
  message whose classification comes back as \<^verbatim>\<open>null\<close> is not counted, so the count
  stays equal to the number of user entries.
\<close>

theorem overlapping_calls_count_counterexample:
  "map_option messageCount
     (fst (exec (Map.empty, [])
        [Receive ''u'' ''a'' 0, Receive ''u'' ''b'' 1,
         Resume 0 scripted_world 2, Resume 0 scripted_world 3]) ''u'') = Some 1
   \<and> map_option user_entries
     (fst (exec (Map.empty, [])
        [Receive ''u'' ''a'' 0, Receive ''u'' ''b'' 1,
         Resume 0 scripted_world 2, Resume 0 scripted_world 3]) ''u'') = Some 2
   \<and> map_option messageCount
     (run Map.empty [ProcessMessage scripted_world ''u'' ''hi'' 0,
                     ProcessMessage null_world ''u'' ''hi'' 1] ''u'') = Some 1
   \<and> map_option user_entries
     (run Map.empty [ProcessMessage scripted_world ''u'' ''hi'' 0,
                     ProcessMessage null_world ''u'' ''hi'' 1] ''u'') = Some 1"
  by (simp add: exec_def run_def processMessage_resume_fst processMessage_body_fst
        processMessage_fst scripted_classify null_classify
        getUserState_fst getUserState_snd updateUserState_messageCount updateUserState_history
        is_new_message_def message_update_sel user_entries_def default_state_def)

text \<open>
  C10 (amended). When the calls run one after the other, in every state a user has
  after a sequence of operations from the empty store \<open>messageCount\<close> is at least the
  number of history entries of role user. Once the user submits a message whose
  content some earlier user entry already has, and whose classification returns an
  object, the count exceeds that number, and it still does after any further
  operations: the append is skipped while \<open>messageCount\<close> is still incremented.
\<close>

theorem messageCount_bounds_user_entries:
  assumes "run Map.empty ops u = Some st"
  shows "int (user_entries st) \<le> messageCount st
     \<and> (list_ex (\<lambda>e. role e = ''user'' \<and> content e = m) (conversationHistory st)
          \<and> classifyIntent w m \<noteq> None \<longrightarrow>
          (\<exists>st1. fst (processMessage w (run Map.empty ops) u m now) u = Some st1
             \<and> conversationHistory st1 = conversationHistory st
             \<and> messageCount st1 = messageCount st + 1)
          \<and> (\<exists>st'. run (fst (processMessage w (run Map.empty ops) u m now)) ops' u = Some st'
             \<and> int (user_entries st') < messageCount st'))"
proof -
  let ?S = "run Map.empty ops"
  have le: "int (user_entries st) \<le> messageCount st"
    using run_invariant [of Map.empty u ops st] assms by simp
  have strict: "(\<exists>st1. fst (processMessage w ?S u m now) u = Some st1
             \<and> conversationHistory st1 = conversationHistory st
             \<and> messageCount st1 = messageCount st + 1)
          \<and> (\<exists>st'. run (fst (processMessage w ?S u m now)) ops' u = Some st'
             \<and> int (user_entries st') < messageCount st')"
    if dup: "list_ex (\<lambda>e. role e = ''user'' \<and> content e = m) (conversationHistory st)"
      and cl: "classifyIntent w m \<noteq> None"
  proof -
    from cl obtain r where r: "classifyIntent w m = Some r" by auto
    let ?st1 = "snd (updateUserState ?S u
                  (message_update (intent r) m (messageCount st + 1)) now)"
    have s1: "fst (processMessage w ?S u m now) u = Some ?st1"
      using assms r by (simp add: processMessage_fst getUserState_known)
    have m1: "messageCount ?st1 = messageCount st + 1"
      by (rule updateUserState_messageCount)
    have h1: "conversationHistory ?st1 = conversationHistory st"
      using assms dup
      by (simp add: updateUserState_history is_new_message_def message_update_sel
            getUserState_known)
    then have e1: "user_entries ?st1 = user_entries st"
      by (simp add: user_entries_def)
    from s1 run_step [of "fst (processMessage w ?S u m now)" u ?st1 ops']
    obtain st' where rr: "run (fst (processMessage w ?S u m now)) ops' u = Some st'"
      and c: "messageCount ?st1 - int (user_entries ?st1) \<le> messageCount st' - int (user_entries st')"
      by blast
    from c m1 e1 le have "int (user_entries st') < messageCount st'" by simp
    with rr s1 h1 m1 show ?thesis by blast
  qed
  from le strict show ?thesis by blast
qed

theorem messageCount_bounds_user_entries_witness:
  "run Map.empty [ProcessMessage offline_world ''u'' ''hi'' 0] ''u'' =
     Some \<lparr> conversationHistory = [\<lparr> role = ''user'', content = ''hi'', timestamp = 0 \<rparr>],
       preferences = [], lastIntent = Some ''general_question'', lastMessage = Some ''hi'',
       messageCount = 1, stage = ''greeting'', createdAt = 0, updatedAt = Some 0 \<rparr>
   \<and> classifyIntent scripted_world ''hi'' \<noteq> None
   \<and> (\<exists>st'. run (fst (processMessage scripted_world
                 (run Map.empty [ProcessMessage offline_world ''u'' ''hi'' 0]) ''u'' ''hi'' 2))
               [AddBotResponse ''u'' ''ok'' 3] ''u'' = Some st'
          \<and> int (user_entries st') < messageCount st')"
proof -
  have h: "run Map.empty [ProcessMessage offline_world ''u'' ''hi'' 0] ''u'' =
     Some \<lparr> conversationHistory = [\<lparr> role = ''user'', content = ''hi'', timestamp = 0 \<rparr>],
       preferences = [], lastIntent = Some ''general_question'', lastMessage = Some ''hi'',
       messageCount = 1, stage = ''greeting'', createdAt = 0, updatedAt = Some 0 \<rparr>"
    by (simp add: run_def processMessage_fst offline_classify fallback_intent_def
        getUserState_snd default_state_def first_turn_state)
  have c: "classifyIntent scripted_world ''hi'' \<noteq> None"
    by (simp add: scripted_classify)
  from messageCount_bounds_user_entries
         [OF h, of "''hi''" scripted_world 2 "[AddBotResponse ''u'' ''ok'' 3]"] h c
  show ?thesis by simp
qed

end
